theory Spec2Isabelle
  imports Complex_Main "HOL-Library.Char_ord" "HOL-Library.List_Lexorder"
    "HOL-Library.Product_Lexorder"
begin

section \<open>Finite-state automata for ASG, CTC and HMM alignment (Fsa.py)\<close>

text \<open>
  A shallow embedding of the graph builders of \<^verbatim>\<open>Fsa.py\<close>: class \<^verbatim>\<open>Edge\<close>,
  class \<^verbatim>\<open>Graph\<close>, the builders \<^verbatim>\<open>Asg\<close>, \<^verbatim>\<open>Ctc\<close> and \<^verbatim>\<open>Hmm\<close>, and
  \<^verbatim>\<open>Store.label_conversion\<close>. Python objects are records, in-place mutation is a
  returned value, exceptions are values of a sum type, and Python's unbounded integers are
  \<open>int\<close>.
\<close>

subsection \<open>Errors\<close>

datatype error =
  AssertionError | IndexError | KeyError | TypeError | UnboundLocalError | AttributeError

subsection \<open>Labels\<close>

text \<open>
  An edge label is \<^verbatim>\<open>int|str|None\<close>. A character of a Python 2 \<^verbatim>\<open>str\<close> is a byte,
  as a \<open>char\<close> is.
\<close>

datatype label = LNone | LInt int | LStr string

text \<open>The label placeholders \<^verbatim>\<open>Edge.SIL\<close>, \<^verbatim>\<open>Edge.EPS\<close> and \<^verbatim>\<open>Edge.BLANK\<close>.\<close>

definition SIL :: string where "SIL = ''_''"
definition EPS :: string where "EPS = ''*''"
definition BLANK :: string where "BLANK = ''%''"

text \<open>
  Python 2 orders values of different types: \<^verbatim>\<open>None\<close> is below every number and every
  number is below every string; integers are ordered by value and strings bytewise,
  lexicographically.
\<close>

fun label_le :: "label \<Rightarrow> label \<Rightarrow> bool" where
  "label_le LNone _ = True"
| "label_le (LInt _) LNone = False"
| "label_le (LInt a) (LInt b) = (a \<le> b)"
| "label_le (LInt _) (LStr _) = True"
| "label_le (LStr _) LNone = False"
| "label_le (LStr _) (LInt _) = False"
| "label_le (LStr s) (LStr t) = (s \<le> t)"

instantiation label :: linorder
begin

definition less_eq_label :: "label \<Rightarrow> label \<Rightarrow> bool" where
  "less_eq_label a b = label_le a b"

definition less_label :: "label \<Rightarrow> label \<Rightarrow> bool" where
  "less_label a b = (label_le a b \<and> \<not> label_le b a)"

instance
proof
  fix x y z :: label
  show "(x < y) = (x \<le> y \<and> \<not> y \<le> x)"
    by (simp add: less_label_def less_eq_label_def)
  show "x \<le> x"
    by (cases x) (simp_all add: less_eq_label_def)
  show "x \<le> y \<Longrightarrow> y \<le> z \<Longrightarrow> x \<le> z"
    by (cases x; cases y; cases z) (simp_all add: less_eq_label_def)
  show "x \<le> y \<Longrightarrow> y \<le> x \<Longrightarrow> x = y"
    by (cases x; cases y) (simp_all add: less_eq_label_def)
  show "x \<le> y \<or> y \<le> x"
    by (cases x; cases y) (auto simp add: less_eq_label_def)
qed

end

subsection \<open>class Edge\<close>

text \<open>
  The weight is a Python float. The builders only ever store the constants \<^verbatim>\<open>0.0\<close> and
  \<^verbatim>\<open>1.\<close> (and copy a lexicon score), which rationals represent exactly.
\<close>

record edge =
  source_state_idx :: int
  target_state_idx :: int
  label :: label
  weight :: rat
  label_prev :: "string option"
  label_next :: "string option"
  idx_word_in_sentence :: "int option"
  idx_phon_in_word :: "int option"
  idx :: "int option"
  allo_idx :: "int option"
  phon_at_word_begin :: bool
  phon_at_word_end :: bool
  score :: "rat option"
  is_loop :: bool

text \<open>\<^verbatim>\<open>Edge.__init__(source_state_idx, target_state_idx, label, weight=0.0)\<close>\<close>

definition Edge :: "int \<Rightarrow> int \<Rightarrow> label \<Rightarrow> rat \<Rightarrow> edge" where
  "Edge s t l w =
     \<lparr>source_state_idx = s, target_state_idx = t, label = l, weight = w,
      label_prev = None, label_next = None, idx_word_in_sentence = None,
      idx_phon_in_word = None, idx = None, allo_idx = None,
      phon_at_word_begin = False, phon_at_word_end = False, score = None,
      is_loop = False\<rparr>"

definition as_tuple :: "edge \<Rightarrow> int \<times> int \<times> label \<times> rat" where
  "as_tuple e = (source_state_idx e, target_state_idx e, label e, weight e)"

text \<open>
  \<^verbatim>\<open>list.sort()\<close> is a stable sort by \<^verbatim>\<open>Edge.__lt__\<close>, which compares
  \<^verbatim>\<open>as_tuple()\<close> lexicographically; a stable sort has one result, the one of the stable
  insertion sort by key.
\<close>

definition sort_edges :: "edge list \<Rightarrow> edge list" where
  "sort_edges es = sort_key as_tuple es"

subsection \<open>class Graph\<close>

text \<open>
  An element of \<^verbatim>\<open>lem_list\<close> is a \<^verbatim>\<open>str\<close> (a word; iterating it yields its
  characters as one-character strings) or a list of labels.
\<close>

datatype lem = PyStr string | PyList "string list"

fun labels_of :: "lem \<Rightarrow> string list" where
  "labels_of (PyStr s) = map (\<lambda>c. [c]) s"
| "labels_of (PyList ls) = ls"

record graph =
  lem_list :: "lem list"
  num_states :: int
  num_states_asg :: int
  num_states_ctc :: int
  num_states_hmm :: int
  num_states_word :: int
  edges :: "edge list"
  edges_asg :: "edge list"
  edges_ctc :: "edge list"
  edges_hmm :: "edge list"
  edges_word :: "edge list"

text \<open>\<^verbatim>\<open>Graph.__init__\<close> on a list (the string case splits the sentence first).\<close>

definition Graph :: "lem list \<Rightarrow> graph" where
  "Graph l =
     \<lparr>lem_list = l, num_states = -1, num_states_asg = -1, num_states_ctc = -1,
      num_states_hmm = -1, num_states_word = -1, edges = [], edges_asg = [],
      edges_ctc = [], edges_hmm = [], edges_word = []\<rparr>"

text \<open>
  \<^verbatim>\<open>Graph.make_single_state_graph\<close>, first on values: the list it returns as a
  function of the list it is given.
\<close>

definition make_single_state_graph :: "int \<Rightarrow> edge list \<Rightarrow> edge list" where
  "make_single_state_graph n es =
     (if n > 1 then map (\<lambda>e. e\<lparr>source_state_idx := 0, target_state_idx := 0\<rparr>) es
      else es)"

text \<open>
  The same method on objects, to see what it writes. The store holds the \<^verbatim>\<open>Edge\<close>
  objects, an address is a position of the store, and a Python list of edges is a list of
  addresses. \<^verbatim>\<open>deepcopy\<close> allocates one new object for every object of the list; its
  memo maps an object that was already copied to its copy, so an object that occurs twice is
  copied once.
\<close>

type_synonym store = "edge list"

fun deepcopy_edges :: "(nat \<times> nat) list \<Rightarrow> nat list \<Rightarrow> store \<Rightarrow> nat list \<times> store" where
  "deepcopy_edges memo [] h = ([], h)"
| "deepcopy_edges memo (r # rs) h =
     (case map_of memo r of
        Some r' \<Rightarrow>
          (case deepcopy_edges memo rs h of (rs', h') \<Rightarrow> (r' # rs', h'))
      | None \<Rightarrow>
          (case deepcopy_edges ((r, length h) # memo) rs (h @ [h ! r]) of
             (rs', h') \<Rightarrow> (length h # rs', h')))"

text \<open>\<^verbatim>\<open>for edge in edges_single_state\<close>: both indices of the object are set to 0.\<close>

definition to_state_0 :: "nat list \<Rightarrow> store \<Rightarrow> store" where
  "to_state_0 refs h =
     fold (\<lambda>r h'. h'[r := (h' ! r)\<lparr>source_state_idx := 0, target_state_idx := 0\<rparr>]) refs h"

definition make_single_state_graph_store :: "int \<Rightarrow> nat list \<Rightarrow> store \<Rightarrow> nat list \<times> store" where
  "make_single_state_graph_store n refs h =
     (case deepcopy_edges [] refs h of
        (edges_single_state, h') \<Rightarrow>
          (edges_single_state, if n > 1 then to_state_0 edges_single_state h' else h'))"

subsection \<open>Store.label\_conversion\<close>

text \<open>
  One iteration of the loop of \<^verbatim>\<open>Store.label_conversion\<close>. \<^verbatim>\<open>ord\<close> raises
  \<^verbatim>\<open>TypeError\<close> on a string whose length is not 1; \<^verbatim>\<open>ord(' ')\<close> is 32.
\<close>

definition ord :: "string \<Rightarrow> error + int" where
  "ord s = (case s of [c] \<Rightarrow> Inr (of_char c) | _ \<Rightarrow> Inl TypeError)"

fun convert_label :: "label \<Rightarrow> error + label" where
  "convert_label (LStr s) =
     (if s = BLANK then Inr (LInt 32)
      else if s = SIL \<or> s = EPS then Inr (LStr s)
      else (case ord s of Inl err \<Rightarrow> Inl err | Inr n \<Rightarrow> Inr (LInt n)))"
| "convert_label (LInt n) = Inr (LInt n)"
| "convert_label LNone = Inl AssertionError"

text \<open>The loop over the edges: the first failing label aborts the conversion.\<close>

fun Store_label_conversion :: "edge list \<Rightarrow> error + edge list" where
  "Store_label_conversion [] = Inr []"
| "Store_label_conversion (e # es) =
     (case convert_label (label e) of
        Inl err \<Rightarrow> Inl err
      | Inr l \<Rightarrow>
          (case Store_label_conversion es of
             Inl err \<Rightarrow> Inl err
           | Inr es' \<Rightarrow> Inr (e\<lparr>label := l\<rparr> # es')))"

subsection \<open>class Asg\<close>

record Asg =
  fsa :: graph
  num_labels :: int
  asg_repetition :: int
  label_conversion :: bool
  separator :: bool

text \<open>
  The scan of one label in \<^verbatim>\<open>Asg.run\<close>; the state is
  \<^verbatim>\<open>(label_prev, rep_count, reps_label)\<close>.
\<close>

fun asg_scan_label ::
  "Asg \<Rightarrow> string option \<times> int \<times> label list \<Rightarrow> string \<Rightarrow> string option \<times> int \<times> label list"
where
  "asg_scan_label b (prev, rep_count, reps_label) lab =
     (if Some lab = prev then
        (if rep_count < asg_repetition b then (Some lab, rep_count + 1, reps_label)
         else (Some lab, 1, reps_label @ [LInt (num_labels b + rep_count)]))
      else
        (if rep_count \<noteq> 0
         then (Some lab, 0, reps_label @ [LInt (num_labels b + rep_count)] @ [LStr lab])
         else (Some lab, 0, reps_label @ [LStr lab])))"

text \<open>The inner loop \<^verbatim>\<open>for label in lem\<close>, started by the caller with an empty list.\<close>

fun asg_scan_word ::
  "Asg \<Rightarrow> string option \<times> int \<times> label list \<Rightarrow> string list \<Rightarrow> string option \<times> int \<times> label list"
where
  "asg_scan_word b st [] = st"
| "asg_scan_word b st (lab # labs) = asg_scan_word b (asg_scan_label b st lab) labs"

text \<open>
  The outer loop \<^verbatim>\<open>for lem in self.fsa.lem_list\<close>: \<^verbatim>\<open>label_prev\<close> and
  \<^verbatim>\<open>rep_count\<close> live outside it, \<^verbatim>\<open>reps_label\<close> is fresh for every word.
\<close>

fun asg_scan ::
  "Asg \<Rightarrow> string option \<times> int \<Rightarrow> lem list \<Rightarrow> label list list"
where
  "asg_scan b (prev, rep_count) [] = []"
| "asg_scan b (prev, rep_count) (w # ws) =
     (case asg_scan_word b (prev, rep_count, []) (labels_of w) of
        (prev', rep_count', reps_label) \<Rightarrow>
          reps_label # asg_scan b (prev', rep_count') ws)"

text \<open>\<^verbatim>\<open>label_prev\<close> and \<^verbatim>\<open>rep_count\<close> when the outer loop has scanned the words.\<close>

fun asg_scan_state :: "Asg \<Rightarrow> string option \<times> int \<Rightarrow> lem list \<Rightarrow> string option \<times> int" where
  "asg_scan_state b st [] = st"
| "asg_scan_state b (prev, rep_count) (w # ws) =
     (case asg_scan_word b (prev, rep_count, []) (labels_of w) of
        (prev', rep_count', reps_label) \<Rightarrow> asg_scan_state b (prev', rep_count') ws)"

text \<open>
  A label list of a word that is empty, with repeats counted, or starts with a repetition
  symbol: what the scan of a word yields when its first label repeats the label before.
\<close>

definition marker_first :: "int \<Rightarrow> label list \<Rightarrow> bool" where
  "marker_first rc reps = (case reps of [] \<Rightarrow> 0 < rc | l # _ \<Rightarrow> (\<exists>n. l = LInt n))"

definition asg_label_repetitions :: "Asg \<Rightarrow> label list list" where
  "asg_label_repetitions b = asg_scan b (None, 0) (lem_list (fsa b))"

text \<open>
  The state of the loops that create the states:
  \<^verbatim>\<open>num_states, cur_idx, src_idx, trgt_idx, edges\<close>.
\<close>

record asg_state =
  as_num_states :: int
  as_cur_idx :: int
  as_src_idx :: int
  as_trgt_idx :: int
  as_edges :: "edge list"

text \<open>One iteration of \<^verbatim>\<open>for idx, lab in enumerate(rep_label)\<close>.\<close>

definition asg_add_label :: "int \<Rightarrow> int \<Rightarrow> int \<Rightarrow> label \<Rightarrow> asg_state \<Rightarrow> asg_state" where
  "asg_add_label rep_index len_rep_label i lab st =
     (let src_idx = as_cur_idx st;
          trgt_idx = src_idx + 1;
          ns = (if as_cur_idx st = 0 then as_num_states st + 1 else as_num_states st) + 1;
          e = (Edge src_idx trgt_idx lab 0)
                \<lparr>idx_word_in_sentence := Some rep_index,
                 idx_phon_in_word := Some i,
                 idx := Some (as_cur_idx st),
                 phon_at_word_begin := (i = 0),
                 phon_at_word_end := (i = len_rep_label - 1)\<rparr>
      in \<lparr>as_num_states = ns, as_cur_idx = as_cur_idx st + 1, as_src_idx = src_idx,
          as_trgt_idx = trgt_idx, as_edges = as_edges st @ [e]\<rparr>)"

fun asg_add_labels :: "int \<Rightarrow> int \<Rightarrow> int \<Rightarrow> label list \<Rightarrow> asg_state \<Rightarrow> asg_state" where
  "asg_add_labels rep_index len_rep_label i [] st = st"
| "asg_add_labels rep_index len_rep_label i (lab # labs) st =
     asg_add_labels rep_index len_rep_label (i + 1) labs
       (asg_add_label rep_index len_rep_label i lab st)"

text \<open>The separator between two words, when \<^verbatim>\<open>self.separator\<close> is set.\<close>

definition asg_add_separator :: "asg_state \<Rightarrow> asg_state" where
  "asg_add_separator st =
     st\<lparr>as_edges := as_edges st @ [Edge (as_src_idx st + 1) (as_trgt_idx st + 1) (LStr BLANK) 0],
        as_num_states := as_num_states st + 1,
        as_cur_idx := as_cur_idx st + 1\<rparr>"

text \<open>
  \<^verbatim>\<open>for rep_index, rep_label in enumerate(label_repetitions)\<close>; \<open>n\<close> is
  \<^verbatim>\<open>len(label_repetitions)\<close>.
\<close>

fun asg_create_states :: "bool \<Rightarrow> int \<Rightarrow> int \<Rightarrow> label list list \<Rightarrow> asg_state \<Rightarrow> asg_state" where
  "asg_create_states sep n rep_index [] st = st"
| "asg_create_states sep n rep_index (rep_label # rest) st =
     (let st1 = asg_add_labels rep_index (int (length rep_label)) 0 rep_label st;
          st2 = (if sep \<and> rep_index < n - 1 then asg_add_separator st1 else st1)
      in asg_create_states sep n (rep_index + 1) rest st2)"

text \<open>
  The loops of one state: a copy of every edge that ends in \<open>loop_idx\<close> and is not
  labelled with \<^verbatim>\<open>Edge.EPS\<close> or \<^verbatim>\<open>Edge.SIL\<close>, in list order, turned into a loop.
\<close>

definition asg_loops_at :: "edge list \<Rightarrow> int \<Rightarrow> edge list" where
  "asg_loops_at es loop_idx =
     es @ map (\<lambda>e. e\<lparr>source_state_idx := target_state_idx e, is_loop := True\<rparr>)
            (filter (\<lambda>e. target_state_idx e = loop_idx \<and> label e \<noteq> LStr EPS
                          \<and> label e \<noteq> LStr SIL) es)"

text \<open>\<^verbatim>\<open>for loop_idx in range(1, self.fsa.num_states)\<close>\<close>

definition asg_add_loops :: "int \<Rightarrow> edge list \<Rightarrow> edge list" where
  "asg_add_loops ns es = foldl asg_loops_at es [1..ns - 1]"

text \<open>
  \<^verbatim>\<open>Asg.run\<close>. It sets \<^verbatim>\<open>num_states\<close> to 0 and appends to the edge list the graph
  has; the only exception it can raise is the one of the label conversion.
\<close>

definition Asg_run :: "Asg \<Rightarrow> error + Asg" where
  "Asg_run b =
     (let label_repetitions = asg_label_repetitions b;
          st = asg_create_states (separator b) (int (length label_repetitions)) 0
                 label_repetitions
                 \<lparr>as_num_states = 0, as_cur_idx = 0, as_src_idx = 0, as_trgt_idx = 0,
                  as_edges = edges (fsa b)\<rparr>;
          ns = as_num_states st;
          es = sort_edges (asg_add_loops ns (as_edges st))
      in case (if label_conversion b then Store_label_conversion es else Inr es) of
           Inl err \<Rightarrow> Inl err
         | Inr es' \<Rightarrow>
             Inr (b\<lparr>fsa := (fsa b)\<lparr>num_states_asg := ns, num_states := -1,
                                      edges_asg := es', edges := []\<rparr>\<rparr>))"

text \<open>
  \<^verbatim>\<open>Asg.__init__\<close> receives arbitrary Python values; these are the ones its checks
  tell apart. \<^verbatim>\<open>bool\<close> is a subclass of \<^verbatim>\<open>int\<close>.
\<close>

datatype pyval = PInt int | PBool bool | PString string | PNoneVal | PGraph graph

fun isinstance_Graph :: "pyval \<Rightarrow> bool" where
  "isinstance_Graph (PGraph _) = True"
| "isinstance_Graph _ = False"

fun isinstance_int :: "pyval \<Rightarrow> bool" where
  "isinstance_int (PInt _) = True"
| "isinstance_int (PBool _) = True"
| "isinstance_int _ = False"

fun isinstance_bool :: "pyval \<Rightarrow> bool" where
  "isinstance_bool (PBool _) = True"
| "isinstance_bool _ = False"

fun int_of :: "pyval \<Rightarrow> int" where
  "int_of (PInt n) = n"
| "int_of (PBool b) = (if b then 1 else 0)"
| "int_of _ = 0"

fun bool_of :: "pyval \<Rightarrow> bool" where
  "bool_of (PBool b) = b"
| "bool_of (PInt n) = (n \<noteq> 0)"
| "bool_of (PString s) = (s \<noteq> [])"
| "bool_of PNoneVal = False"
| "bool_of (PGraph _) = True"

fun graph_of :: "pyval \<Rightarrow> graph" where
  "graph_of (PGraph g) = g"
| "graph_of _ = Graph []"

definition Asg_init :: "pyval \<Rightarrow> pyval \<Rightarrow> pyval \<Rightarrow> pyval \<Rightarrow> error + Asg" where
  "Asg_init fsa_arg num_labels_arg asg_repetition_arg label_conversion_arg =
     (if isinstance_Graph fsa_arg \<and> isinstance_int num_labels_arg
         \<and> isinstance_int asg_repetition_arg \<and> isinstance_bool label_conversion_arg
      then Inr \<lparr>fsa = graph_of fsa_arg, num_labels = int_of num_labels_arg,
                asg_repetition = int_of asg_repetition_arg,
                label_conversion = bool_of label_conversion_arg, separator = False\<rparr>
      else Inl AssertionError)"

subsection \<open>class Ctc\<close>

record Ctc =
  fsa :: graph
  num_labels :: int
  label_conversion :: bool
  final_states :: "int list"

text \<open>
  \<^verbatim>\<open>Ctc.__init__\<close>: three assertions. \<^verbatim>\<open>label_conversion\<close> may be any integer; the
  run only tests its truth value.
\<close>

definition Ctc_init :: "pyval \<Rightarrow> pyval \<Rightarrow> pyval \<Rightarrow> error + Ctc" where
  "Ctc_init fsa_arg num_labels_arg label_conversion_arg =
     (if \<not> isinstance_Graph fsa_arg then Inl AssertionError
      else if \<not> isinstance_int num_labels_arg then Inl AssertionError
      else if \<not> isinstance_int label_conversion_arg then Inl AssertionError
      else Inr \<lparr>fsa = graph_of fsa_arg, num_labels = int_of num_labels_arg,
                label_conversion = bool_of label_conversion_arg, final_states = []\<rparr>)"

text \<open>
  Subscription \<^verbatim>\<open>xs[i]\<close> of a list: \<open>-1\<close> is the last position, \<open>-len(xs)\<close>
  the first, and a position outside the list raises.
\<close>

definition getitem :: "'a list \<Rightarrow> int \<Rightarrow> error + 'a" where
  "getitem xs i =
     (if 0 \<le> i \<and> i < int (length xs) then Inr (xs ! nat i)
      else if i < 0 \<and> - int (length xs) \<le> i then Inr (xs ! nat (int (length xs) + i))
      else Inl IndexError)"

text \<open>
  \<^verbatim>\<open>seq[i - 1]\<close> for an index \<open>i\<close> of \<open>seq\<close>, where it cannot raise: at \<open>i = 0\<close> it
  is \<^verbatim>\<open>seq[-1]\<close>, the last element.
\<close>

definition seq_before :: "'a list \<Rightarrow> nat \<Rightarrow> 'a" where
  "seq_before seq i = (if i = 0 then last seq else seq ! (i - 1))"

text \<open>The test \<^verbatim>\<open>seq[i] != seq[i - 1] or len(seq) == 1\<close> that guards the direct edge.\<close>

definition ctc_direct :: "string list \<Rightarrow> nat \<Rightarrow> bool" where
  "ctc_direct seq i = (seq ! i \<noteq> seq_before seq i \<or> length seq = 1)"

record ctc_state =
  cs_num_states :: int
  cs_cur_idx :: int
  cs_edges :: "edge list"

text \<open>The three edges of label \<open>i\<close> of a word: \<^verbatim>\<open>e_norm\<close>, \<^verbatim>\<open>e_blank\<close>, \<^verbatim>\<open>e_rep\<close>.\<close>

definition ctc_e_norm :: "int \<Rightarrow> string list \<Rightarrow> nat \<Rightarrow> int \<Rightarrow> edge" where
  "ctc_e_norm word_idx seq i cur_idx =
     (Edge (2 * cur_idx) (2 * cur_idx + 2) (LStr (seq ! i)) 0)
       \<lparr>idx := Some cur_idx, idx_word_in_sentence := Some word_idx,
        idx_phon_in_word := Some (int i)\<rparr>"

definition ctc_e_blank :: "int \<Rightarrow> edge" where
  "ctc_e_blank cur_idx = Edge (2 * cur_idx) (2 * cur_idx + 2 - 1) (LStr BLANK) 0"

definition ctc_e_rep :: "int \<Rightarrow> string list \<Rightarrow> nat \<Rightarrow> int \<Rightarrow> edge" where
  "ctc_e_rep word_idx seq i cur_idx =
     (ctc_e_norm word_idx seq i cur_idx)\<lparr>source_state_idx := 2 * cur_idx + 1\<rparr>"

text \<open>One iteration of \<^verbatim>\<open>for i, label in enumerate(seq)\<close>.\<close>

definition ctc_add_label :: "int \<Rightarrow> string list \<Rightarrow> nat \<Rightarrow> ctc_state \<Rightarrow> ctc_state" where
  "ctc_add_label word_idx seq i st =
     (let cur_idx = cs_cur_idx st;
          ns = (if cur_idx = 0 then cs_num_states st + 1 else cs_num_states st);
          es = (if ctc_direct seq i
                then cs_edges st @ [ctc_e_norm word_idx seq i cur_idx] else cs_edges st)
      in \<lparr>cs_num_states = ns + 2, cs_cur_idx = cur_idx + 1,
          cs_edges = es @ [ctc_e_blank cur_idx] @ [ctc_e_rep word_idx seq i cur_idx]\<rparr>)"

text \<open>The separator between two words.\<close>

definition ctc_add_separator :: "ctc_state \<Rightarrow> ctc_state" where
  "ctc_add_separator st =
     (let c = cs_cur_idx st
      in \<lparr>cs_num_states = cs_num_states st + 2, cs_cur_idx = c + 1,
          cs_edges = cs_edges st @ [Edge (2 * c) (2 * c + 1) (LStr BLANK) 0]
                       @ [Edge (2 * c + 1) (2 * c + 2) (LStr SIL) 0]
                       @ [Edge (2 * c) (2 * c + 2) (LStr SIL) 0]\<rparr>)"

text \<open>
  \<^verbatim>\<open>for idx, seq in enumerate(self.fsa.lem_list)\<close>; \<open>n\<close> is
  \<^verbatim>\<open>len(self.fsa.lem_list)\<close>.
\<close>

fun ctc_words :: "int \<Rightarrow> int \<Rightarrow> lem list \<Rightarrow> ctc_state \<Rightarrow> ctc_state" where
  "ctc_words n word_idx [] st = st"
| "ctc_words n word_idx (w # ws) st =
     (let seq = labels_of w;
          st1 = fold (ctc_add_label word_idx seq) [0..<length seq] st;
          st2 = (if word_idx < n - 1 then ctc_add_separator st1 else st1)
      in ctc_words n (word_idx + 1) ws st2)"

text \<open>
  The body of \<^verbatim>\<open>for fstate in self.final_states\<close>, \<open>ns\<close> being the state count
  after the new final node was added: \<^verbatim>\<open>final_state_idx_list[0]\<close> raises
  \<^verbatim>\<open>IndexError\<close> when no edge ends in \<open>fstate\<close>.
\<close>

definition ctc_join_final :: "int \<Rightarrow> int \<Rightarrow> edge list \<Rightarrow> error + edge list" where
  "ctc_join_final ns fstate es =
     (case filter (\<lambda>e. target_state_idx e = fstate) es of
        [] \<Rightarrow> Inl IndexError
      | e0 # rest \<Rightarrow>
          Inr (es @ [Edge fstate (ns - 1) (label e0) 0]
                  @ map (\<lambda>e. e\<lparr>target_state_idx := ns - 1\<rparr>) (e0 # rest)))"

fun ctc_join_finals :: "int \<Rightarrow> int list \<Rightarrow> edge list \<Rightarrow> error + edge list" where
  "ctc_join_finals ns [] es = Inr es"
| "ctc_join_finals ns (fstate # fs) es =
     (case ctc_join_final ns fstate es of
        Inl err \<Rightarrow> Inl err
      | Inr es' \<Rightarrow> ctc_join_finals ns fs es')"

text \<open>
  The loop of one state: a copy of the first edge that ends in \<open>loop_idx\<close>;
  \<^verbatim>\<open>edges_add_loop[0]\<close> raises \<^verbatim>\<open>IndexError\<close> when there is none.
\<close>

definition ctc_loop_at :: "int \<Rightarrow> edge list \<Rightarrow> error + edge list" where
  "ctc_loop_at loop_idx es =
     (case filter (\<lambda>e. target_state_idx e = loop_idx) es of
        [] \<Rightarrow> Inl IndexError
      | e0 # rest \<Rightarrow> Inr (es @ [e0\<lparr>source_state_idx := target_state_idx e0, is_loop := True\<rparr>]))"

fun ctc_add_loops :: "int list \<Rightarrow> edge list \<Rightarrow> error + edge list" where
  "ctc_add_loops [] es = Inr es"
| "ctc_add_loops (loop_idx # rest) es =
     (case ctc_loop_at loop_idx es of
        Inl err \<Rightarrow> Inl err
      | Inr es' \<Rightarrow> ctc_add_loops rest es')"

text \<open>\<^verbatim>\<open>self.fsa.lem_list[-1][-1]\<close>\<close>

definition last_label :: "lem list \<Rightarrow> error + string" where
  "last_label ws =
     (case getitem ws (-1) of
        Inl err \<Rightarrow> Inl err
      | Inr w \<Rightarrow> getitem (labels_of w) (-1))"

text \<open>
  \<^verbatim>\<open>Ctc.run\<close>, in four steps: the lattice and the three final edges; the single final
  node; the loops; conversion, sort and the copy into the fields of the topology.
\<close>

definition ctc_lattice :: "Ctc \<Rightarrow> ctc_state" where
  "ctc_lattice b =
     ctc_words (int (length (lem_list (fsa b)))) 0 (lem_list (fsa b))
       \<lparr>cs_num_states = 0, cs_cur_idx = 0, cs_edges = edges (fsa b)\<rparr>"

definition ctc_end_edges :: "int \<Rightarrow> string \<Rightarrow> edge list" where
  "ctc_end_edges ns lab =
     [Edge (ns - 3) ns (LStr BLANK) 1, Edge (ns + 1) (ns + 2) (LStr BLANK) 1,
      Edge ns (ns + 1) (LStr lab) 1]"

definition ctc_single_final :: "int list \<Rightarrow> int \<Rightarrow> edge list \<Rightarrow> error + int \<times> edge list" where
  "ctc_single_final fstates ns es =
     (if \<not> (length fstates = 1 \<and> fstates ! 0 = ns - 1)
      then (case ctc_join_finals (ns + 1) fstates es of
              Inl err \<Rightarrow> Inl err
            | Inr es' \<Rightarrow> Inr (ns + 1, es'))
      else Inr (ns, es))"

definition ctc_finish :: "Ctc \<Rightarrow> int list \<Rightarrow> int \<Rightarrow> edge list \<Rightarrow> error + Ctc" where
  "ctc_finish b fstates ns es =
     (case (if label_conversion b then Store_label_conversion es else Inr es) of
        Inl err \<Rightarrow> Inl err
      | Inr es' \<Rightarrow>
          Inr (b\<lparr>final_states := fstates,
                 fsa := (fsa b)\<lparr>num_states_ctc := ns, num_states := -1,
                                 edges_ctc := sort_edges es', edges := []\<rparr>\<rparr>))"

definition Ctc_run :: "Ctc \<Rightarrow> error + Ctc" where
  "Ctc_run b =
     (let st = ctc_lattice b;
          ns0 = cs_num_states st;
          fstates0 = final_states b @ [ns0 - 1]
      in case last_label (lem_list (fsa b)) of
           Inl err \<Rightarrow> Inl err
         | Inr lab \<Rightarrow>
             (let es1 = cs_edges st @ ctc_end_edges ns0 lab;
                  ns1 = ns0 + 3;
                  fstates = fstates0 @ [ns1 - 1]
              in case ctc_single_final fstates ns1 es1 of
                   Inl err \<Rightarrow> Inl err
                 | Inr (ns2, es2) \<Rightarrow>
                     (case ctc_add_loops [1..ns2 - 1 - 1] es2 of
                        Inl err \<Rightarrow> Inl err
                      | Inr es3 \<Rightarrow> ctc_finish b fstates ns2 es3)))"

subsection \<open>class Hmm\<close>

text \<open>
  The lexicon gives, for a word, its pronunciations
  (\<^verbatim>\<open>lexicon.lemmas[word]['phons']\<close>), each with the keys \<^verbatim>\<open>'phon'\<close> and
  \<^verbatim>\<open>'score'\<close>; the state tying is the dictionary \<^verbatim>\<open>state_tying.allo_map\<close>. Both
  are \<^verbatim>\<open>None\<close> until the caller sets them.
\<close>

record pron =
  phon :: string
  pron_score :: rat

record Hmm =
  fsa :: graph
  depth :: int
  allo_num_states :: int
  state_tying_conversion :: bool
  lexicon :: "(string \<Rightarrow> pron list option) option"
  state_tying :: "(string \<Rightarrow> int option) option"
  phon_dict :: "string \<Rightarrow> pron list option"

definition Hmm_init :: "pyval \<Rightarrow> pyval \<Rightarrow> pyval \<Rightarrow> pyval \<Rightarrow> error + Hmm" where
  "Hmm_init fsa_arg depth_arg allo_num_states_arg state_tying_conversion_arg =
     (if isinstance_Graph fsa_arg \<and> isinstance_int depth_arg
         \<and> isinstance_int allo_num_states_arg
      then Inr \<lparr>fsa = graph_of fsa_arg, depth = int_of depth_arg,
                allo_num_states = int_of allo_num_states_arg,
                state_tying_conversion = bool_of state_tying_conversion_arg,
                lexicon = None, state_tying = None, phon_dict = Map.empty\<rparr>
      else Inl AssertionError)"

text \<open>\<^verbatim>\<open>s.split(' ')\<close>: every single space separates, so the result is never empty.\<close>

fun split_space :: "string \<Rightarrow> string list" where
  "split_space [] = [[]]"
| "split_space (c # cs) =
     (if c = CHR '' '' then [] # split_space cs
      else (case split_space cs of [] \<Rightarrow> [[c]] | w # ws \<Rightarrow> (c # w) # ws))"

text \<open>\<^verbatim>\<open>str\<close> of an integer, and \<^verbatim>\<open>'%s' %\<close> of a label and of a context.\<close>

definition digit_char :: "nat \<Rightarrow> char" where
  "digit_char d = char_of (48 + d)"

function str_nat :: "nat \<Rightarrow> string" where
  "str_nat n = (if n < 10 then [digit_char n] else str_nat (n div 10) @ [digit_char (n mod 10)])"
  by pat_completeness auto
termination
  by (relation "measure id") auto

definition str_int :: "int \<Rightarrow> string" where
  "str_int i = (if i < 0 then CHR ''-'' # str_nat (nat (- i)) else str_nat (nat i))"

fun str_label :: "label \<Rightarrow> string" where
  "str_label LNone = ''None''"
| "str_label (LInt i) = str_int i"
| "str_label (LStr s) = s"

fun str_context :: "string option \<Rightarrow> string" where
  "str_context None = ''None''"
| "str_context (Some s) = s"

text \<open>\<^verbatim>\<open>Hmm._build_allo_syntax_for_mapping\<close>\<close>

definition build_allo_syntax_for_mapping :: "edge \<Rightarrow> string" where
  "build_allo_syntax_for_mapping e =
     (let allo_map1 =
            (if label e = LStr SIL then ''[SILENCE]'' @ ''{#+#}''
             else if label e = LStr EPS then ''*''
             else if label_prev e = Some [] \<and> label_next e = Some []
               then str_label (label e) @ ''{#+#}''
             else if label_prev e = Some []
               then str_label (label e) @ ''{#+'' @ str_context (label_next e) @ ''}''
             else if label_next e = Some []
               then str_label (label e) @ ''{'' @ str_context (label_prev e) @ ''+#}''
             else str_label (label e) @ ''{'' @ str_context (label_prev e) @ ''+''
                    @ str_context (label_next e) @ ''}'');
          allo_map2 = (if phon_at_word_begin e then allo_map1 @ ''@i'' else allo_map1);
          allo_map3 = (if phon_at_word_end e then allo_map2 @ ''@f'' else allo_map2)
      in if label e = LStr SIL then allo_map3 @ ''.0''
         else if label e = LStr EPS then allo_map3
         else (case allo_idx e of
                 Some a \<Rightarrow> allo_map3 @ ''.'' @ str_int a
               | None \<Rightarrow> allo_map3))"

text \<open>
  The state of the loops over the words: \<^verbatim>\<open>target_node\<close> is unbound until the first
  phoneme is seen.
\<close>

record hmm_state =
  hs_num_states :: int
  hs_split_node :: int
  hs_merge_node :: int
  hs_target_node :: "int option"
  hs_edges :: "edge list"

text \<open>
  One iteration of \<^verbatim>\<open>for phon_idx, phon in enumerate(lem)\<close>: first the nodes
  (\<^verbatim>\<open>split_node, merge_node, source_node, target_node, num_states\<close>), then the edge.
\<close>

definition hmm_nodes ::
  "int \<Rightarrow> int \<Rightarrow> nat \<Rightarrow> nat \<Rightarrow> int \<times> int \<times> int \<Rightarrow> int \<times> int \<times> int \<times> int \<times> int"
where
  "hmm_nodes phon_dict_len lemma_idx len_lem phon_idx st =
     (case st of (ns, split_node, merge_node) \<Rightarrow>
        if phon_dict_len = 1 then (split_node, merge_node, ns, ns + 1, ns + 1)
        else
          (let split_node' = (if lemma_idx = 0 \<and> phon_idx = 0 then ns else split_node);
               merge_node' = (if lemma_idx = 0 \<and> int phon_idx = int len_lem - 1
                              then ns + 1 else merge_node)
           in if lemma_idx = 0 then (split_node', merge_node', ns, ns + 1, ns + 1)
              else
                (let ns' = (if phon_idx \<noteq> 0 then ns + 1 else ns)
                 in (split_node', merge_node',
                     (if phon_idx = 0 then split_node' else ns'),
                     (if int phon_idx = int len_lem - 1 then merge_node' else ns' + 1),
                     ns'))))"

definition hmm_phon_edge ::
  "int \<Rightarrow> string list \<Rightarrow> rat \<Rightarrow> nat \<Rightarrow> int \<Rightarrow> int \<Rightarrow> int \<Rightarrow> edge"
where
  "hmm_phon_edge word_idx lem sc phon_idx source_node target_node ns =
     (Edge source_node target_node (LStr (lem ! phon_idx)) 0)
       \<lparr>label_prev := Some (if phon_idx = 0 then [] else lem ! (phon_idx - 1)),
        label_next := Some (if int phon_idx = int (length lem) - 1 then []
                            else lem ! (phon_idx + 1)),
        score := (if phon_idx = 0 then Some sc else None),
        idx_word_in_sentence := Some word_idx,
        idx_phon_in_word := Some (int phon_idx),
        idx := Some (ns + int phon_idx),
        phon_at_word_begin := (phon_idx = 0),
        phon_at_word_end := (int phon_idx = int (length lem) - 1)\<rparr>"

definition hmm_add_phon ::
  "int \<Rightarrow> int \<Rightarrow> int \<Rightarrow> string list \<Rightarrow> rat \<Rightarrow> nat \<Rightarrow> hmm_state \<Rightarrow> hmm_state"
where
  "hmm_add_phon word_idx phon_dict_len lemma_idx lem sc phon_idx st =
     (case hmm_nodes phon_dict_len lemma_idx (length lem) phon_idx
             (hs_num_states st, hs_split_node st, hs_merge_node st) of
        (split_node, merge_node, source_node, target_node, ns) \<Rightarrow>
          \<lparr>hs_num_states = ns, hs_split_node = split_node, hs_merge_node = merge_node,
           hs_target_node = Some target_node,
           hs_edges = hs_edges st
                        @ [hmm_phon_edge word_idx lem sc phon_idx source_node target_node ns]\<rparr>)"

text \<open>\<^verbatim>\<open>for lemma_idx, lemma in enumerate(self.phon_dict[word])\<close>\<close>

fun hmm_variants :: "int \<Rightarrow> int \<Rightarrow> int \<Rightarrow> pron list \<Rightarrow> hmm_state \<Rightarrow> hmm_state" where
  "hmm_variants word_idx phon_dict_len lemma_idx [] st = st"
| "hmm_variants word_idx phon_dict_len lemma_idx (p # ps) st =
     (let lem = split_space (phon p)
      in hmm_variants word_idx phon_dict_len (lemma_idx + 1) ps
           (fold (hmm_add_phon word_idx phon_dict_len lemma_idx lem (pron_score p))
              [0..<length lem] st))"

text \<open>
  \<^verbatim>\<open>self.lexicon.lemmas[word]['phons']\<close>: no lexicon, a word that is a list
  (unhashable) and a word the lexicon does not have all raise.
\<close>

definition lookup_phons :: "Hmm \<Rightarrow> lem \<Rightarrow> error + string \<times> pron list" where
  "lookup_phons b w =
     (case lexicon b of
        None \<Rightarrow> Inl AttributeError
      | Some lemmas \<Rightarrow>
          (case w of
             PyList _ \<Rightarrow> Inl TypeError
           | PyStr s \<Rightarrow>
               (case lemmas s of None \<Rightarrow> Inl KeyError | Some ps \<Rightarrow> Inr (s, ps))))"

text \<open>The silence and the epsilon edge before the first and after every word.\<close>

definition hmm_first_edges :: "int \<Rightarrow> hmm_state \<Rightarrow> hmm_state" where
  "hmm_first_edges word_idx st =
     (if word_idx = 0
      then st\<lparr>hs_edges := hs_edges st @ [Edge 0 1 (LStr SIL) 0] @ [Edge 0 1 (LStr EPS) 0],
              hs_num_states := hs_num_states st + 2\<rparr>
      else st)"

definition hmm_word_end :: "hmm_state \<Rightarrow> error + hmm_state" where
  "hmm_word_end st =
     (case hs_target_node st of
        None \<Rightarrow> Inl UnboundLocalError
      | Some target_node \<Rightarrow>
          Inr (st\<lparr>hs_edges := hs_edges st
                     @ [Edge target_node (hs_num_states st + 1) (LStr SIL) 0]
                     @ [Edge target_node (hs_num_states st + 1) (LStr EPS) 0],
                  hs_num_states := hs_num_states st + 1\<rparr>))"

text \<open>
  \<^verbatim>\<open>for word_idx, word in enumerate(self.fsa.lem_list)\<close>; the second component is
  \<^verbatim>\<open>self.phon_dict\<close>.
\<close>

fun hmm_words ::
  "Hmm \<Rightarrow> int \<Rightarrow> lem list \<Rightarrow> hmm_state \<times> (string \<Rightarrow> pron list option)
     \<Rightarrow> error + hmm_state \<times> (string \<Rightarrow> pron list option)"
where
  "hmm_words b word_idx [] acc = Inr acc"
| "hmm_words b word_idx (w # ws) (st, pd) =
     (case lookup_phons b w of
        Inl err \<Rightarrow> Inl err
      | Inr (s, ps) \<Rightarrow>
          (case hmm_word_end
                  (hmm_variants word_idx (int (length ps)) 0 ps
                     (hmm_first_edges word_idx st)) of
             Inl err \<Rightarrow> Inl err
           | Inr st' \<Rightarrow> hmm_words b (word_idx + 1) ws (st', pd(s \<mapsto> ps))))"

text \<open>
  The allophone states of one edge, \<^verbatim>\<open>for state in range(self.allo_num_states)\<close>: the
  state is the edge (changed in place at state 0), \<^verbatim>\<open>num_states\<close> and the new edges.
\<close>

definition allo_step ::
  "int \<Rightarrow> int \<Rightarrow> int \<Rightarrow> edge \<times> int \<times> edge list \<Rightarrow> edge \<times> int \<times> edge list"
where
  "allo_step k allo_target_idx state acc =
     (case acc of (e, ns, tmp) \<Rightarrow>
        if state = 0 then (e\<lparr>target_state_idx := ns, allo_idx := Some state\<rparr>, ns, tmp)
        else if state = k - 1
          then (e, ns + 1,
                tmp @ [e\<lparr>allo_idx := Some state, source_state_idx := ns,
                         target_state_idx := allo_target_idx\<rparr>])
        else (e, ns + 1,
              tmp @ [e\<lparr>allo_idx := Some state, source_state_idx := ns + 1 - 1,
                       target_state_idx := ns + 1\<rparr>]))"

text \<open>
  \<^verbatim>\<open>for edge in self.fsa.edges\<close>: the result is the list of the edges, changed in
  place, \<^verbatim>\<open>num_states\<close> and \<^verbatim>\<open>edges_allo_tmp\<close>.
\<close>

fun allo_edges :: "int \<Rightarrow> edge list \<Rightarrow> int \<times> edge list \<Rightarrow> edge list \<times> int \<times> edge list" where
  "allo_edges k [] (ns, tmp) = ([], ns, tmp)"
| "allo_edges k (e # es) (ns, tmp) =
     (if label e \<noteq> LStr SIL \<and> label e \<noteq> LStr EPS
      then (case fold (allo_step k (target_state_idx e)) [0..k - 1] (e, ns, tmp) of
              (e', ns', tmp') \<Rightarrow>
                (case allo_edges k es (ns', tmp') of
                   (es', ns'', tmp'') \<Rightarrow> (e' # es', ns'', tmp'')))
      else (case allo_edges k es (ns, tmp) of
              (es', ns'', tmp'') \<Rightarrow> (e # es', ns'', tmp'')))"

definition allo_expand :: "int \<Rightarrow> int \<Rightarrow> edge list \<Rightarrow> int \<times> edge list" where
  "allo_expand k ns es =
     (if k > 1
      then (case allo_edges k es (ns, []) of (es', ns', tmp) \<Rightarrow> (ns', es' @ tmp))
      else (ns, es))"

text \<open>
  \<^verbatim>\<open>Hmm._find_node_in_edges\<close>: the dictionary from the index of an edge to 0 (the node
  is its source), 1 (its target) or 2 (both); a later loop overwrites an earlier one.
\<close>

datatype node_pos = AsSource | AsTarget | AsBoth

definition find_node_in_edges :: "int \<Rightarrow> edge list \<Rightarrow> nat \<Rightarrow> node_pos option" where
  "find_node_in_edges node es =
     (let pos_start = filter (\<lambda>i. source_state_idx (es ! i) = node) [0..<length es];
          pos_end = filter (\<lambda>i. target_state_idx (es ! i) = node) [0..<length es];
          pos_start_end = filter (\<lambda>i. source_state_idx (es ! i) = node
                                       \<and> target_state_idx (es ! i) = node) [0..<length es]
      in fold (\<lambda>pos d. d(pos \<mapsto> AsBoth)) pos_start_end
           (fold (\<lambda>pos d. d(pos \<mapsto> AsTarget)) pos_end
              (fold (\<lambda>pos d. d(pos \<mapsto> AsSource)) pos_start Map.empty)))"

text \<open>
  The keys of such a dictionary for a list of \<open>n\<close> edges. The two loops over the keys
  write a different edge at every key, so the order of the keys does not matter.
\<close>

definition dict_keys :: "nat \<Rightarrow> (nat \<Rightarrow> node_pos option) \<Rightarrow> nat list" where
  "dict_keys n d = filter (\<lambda>k. d k \<noteq> None) [0..<n]"

text \<open>
  The body of \<^verbatim>\<open>for edge_key in d.keys()\<close>; the last branch of the source,
  \<^verbatim>\<open>assert False\<close>, is for a value other than 0, 1 and 2, which the dictionary never
  holds.
\<close>

definition set_node :: "node_pos \<Rightarrow> int \<Rightarrow> edge \<Rightarrow> edge" where
  "set_node p v e =
     (case p of
        AsSource \<Rightarrow> e\<lparr>source_state_idx := v\<rparr>
      | AsTarget \<Rightarrow> e\<lparr>target_state_idx := v\<rparr>
      | AsBoth \<Rightarrow> e\<lparr>source_state_idx := v, target_state_idx := v\<rparr>)"

definition rewrite_nodes :: "(nat \<Rightarrow> node_pos option) \<Rightarrow> int \<Rightarrow> edge list \<Rightarrow> edge list" where
  "rewrite_nodes d v es =
     fold (\<lambda>edge_key es'.
             case d edge_key of
               Some p \<Rightarrow> es'[edge_key := set_node p v (es' ! edge_key)]
             | None \<Rightarrow> es')
       (dict_keys (length es) d) es"

text \<open>The body of \<^verbatim>\<open>if cur_source_state > cur_target_state\<close>, before the index is reset.\<close>

definition swap_states :: "int \<Rightarrow> int \<Rightarrow> edge list \<Rightarrow> edge list" where
  "swap_states cur_source_state cur_target_state es =
     (let edges_with_cur_source_state = find_node_in_edges cur_source_state es;
          edges_with_cur_target_state = find_node_in_edges cur_target_state es
      in rewrite_nodes edges_with_cur_target_state cur_source_state
           (rewrite_nodes edges_with_cur_source_state cur_target_state es))"

text \<open>
  The loop \<^verbatim>\<open>while sort_idx < len(self.fsa.edges)\<close>. After a swap the source sets
  \<^verbatim>\<open>sort_idx = 0\<close> and then runs \<^verbatim>\<open>sort_idx += 1\<close>, as it does in every
  iteration, so the scan goes on at index 1. The loop need not end: not returning is
  \<open>None\<close>.
\<close>

partial_function (option) renumber :: "nat \<Rightarrow> edge list \<Rightarrow> edge list option" where
  "renumber sort_idx es =
     (if sort_idx < length es
      then (if source_state_idx (es ! sort_idx) > target_state_idx (es ! sort_idx)
            then renumber (0 + 1)
                   (swap_states (source_state_idx (es ! sort_idx))
                      (target_state_idx (es ! sort_idx)) es)
            else renumber (sort_idx + 1) es)
      else Some es)"

declare renumber.simps [code]

text \<open>The loops of one state, and \<^verbatim>\<open>for state in range(1, self.fsa.num_states)\<close>.\<close>

definition hmm_loops_at :: "edge list \<Rightarrow> int \<Rightarrow> edge list" where
  "hmm_loops_at es state =
     es @ map (\<lambda>e. e\<lparr>source_state_idx := target_state_idx e\<rparr>)
            (filter (\<lambda>e. target_state_idx e = state \<and> label e \<noteq> LStr EPS) es)"

definition hmm_add_loops :: "int \<Rightarrow> edge list \<Rightarrow> edge list" where
  "hmm_add_loops ns es = foldl hmm_loops_at es [1..ns - 1]"

text \<open>
  The labels of the state tying, one edge of \<^verbatim>\<open>for edge in self.fsa.edges\<close>: a label
  the state tying does not have is only printed.
\<close>

definition hmm_tie :: "Hmm \<Rightarrow> edge \<Rightarrow> error + edge" where
  "hmm_tie b e =
     (let allo_syntax = build_allo_syntax_for_mapping e;
          e' = e\<lparr>label := LStr allo_syntax\<rparr>
      in if state_tying_conversion b
         then (if label e' = LStr EPS then Inr e'
               else (case state_tying b of
                       None \<Rightarrow> Inl AttributeError
                     | Some allo_map \<Rightarrow>
                         (case allo_map allo_syntax of
                            Some allo_id \<Rightarrow> Inr (e'\<lparr>label := LInt allo_id\<rparr>)
                          | None \<Rightarrow> Inr e')))
         else Inr e')"

fun hmm_tie_all :: "Hmm \<Rightarrow> edge list \<Rightarrow> error + edge list" where
  "hmm_tie_all b [] = Inr []"
| "hmm_tie_all b (e # es) =
     (case hmm_tie b e of
        Inl err \<Rightarrow> Inl err
      | Inr e' \<Rightarrow>
          (case hmm_tie_all b es of
             Inl err \<Rightarrow> Inl err
           | Inr es' \<Rightarrow> Inr (e' # es')))"

text \<open>
  \<^verbatim>\<open>Hmm.run\<close>. Its first statement sets \<^verbatim>\<open>num_states_hmm\<close>, not
  \<^verbatim>\<open>num_states\<close>, to 0: the count goes on from the value the graph has, which is
  \<open>-1\<close> after \<^verbatim>\<open>Graph.__init__\<close> and after every run. The stages: the words and the
  final node; the allophone states; the renumbering; the loops, the labels, the sort and
  the copy into the fields of the topology.
\<close>

definition hmm_build :: "Hmm \<Rightarrow> error + (int \<times> edge list) \<times> (string \<Rightarrow> pron list option)" where
  "hmm_build b =
     (case hmm_words b 0 (lem_list (fsa b))
             (\<lparr>hs_num_states = num_states (fsa b), hs_split_node = 0, hs_merge_node = 0,
               hs_target_node = None, hs_edges = edges (fsa b)\<rparr>, phon_dict b) of
        Inl err \<Rightarrow> Inl err
      | Inr (st, pd) \<Rightarrow>
          Inr (allo_expand (allo_num_states b) (hs_num_states st + 1) (hs_edges st), pd))"

definition hmm_finish ::
  "Hmm \<Rightarrow> (string \<Rightarrow> pron list option) \<Rightarrow> int \<Rightarrow> edge list \<Rightarrow> error + Hmm"
where
  "hmm_finish b pd ns es =
     (case hmm_tie_all b (hmm_add_loops ns es) of
        Inl err \<Rightarrow> Inl err
      | Inr es' \<Rightarrow>
          Inr (b\<lparr>phon_dict := pd,
                 fsa := (fsa b)\<lparr>num_states_hmm := ns, num_states := -1,
                                 edges_hmm := sort_edges es', edges := []\<rparr>\<rparr>))"

definition Hmm_run :: "Hmm \<Rightarrow> (error + Hmm) option" where
  "Hmm_run b =
     (case hmm_build b of
        Inl err \<Rightarrow> Some (Inl err)
      | Inr ((ns, es), pd) \<Rightarrow>
          (case renumber 0 es of
             None \<Rightarrow> None
           | Some es' \<Rightarrow> Some (hmm_finish b pd ns es')))"

subsection \<open>Notions of the properties\<close>

text \<open>
  The edges that end in the same state carry the same label. It holds for the edges ASG
  builds, it is what makes their order independent of the labels.
\<close>

definition tl_unique :: "edge set \<Rightarrow> bool" where
  "tl_unique X =
     (\<forall>e1 \<in> X. \<forall>e2 \<in> X. target_state_idx e1 = target_state_idx e2 \<longrightarrow> label e1 = label e2)"

text \<open>The invariant of the loops of \<^verbatim>\<open>Asg.run\<close> that create the states.\<close>

definition asg_inv :: "asg_state \<Rightarrow> bool" where
  "asg_inv st =
     (tl_unique (set (as_edges st))
      \<and> (\<forall>e \<in> set (as_edges st). target_state_idx e \<le> as_cur_idx st)
      \<and> (\<forall>e \<in> set (as_edges st). label e \<noteq> LStr BLANK \<longrightarrow> target_state_idx e \<le> as_trgt_idx st)
      \<and> as_trgt_idx st \<le> as_cur_idx st)"

text \<open>
  The renumbering of the states: the exchange of two indices, an edge list with its indices
  renamed, the indices of a list, and its edges between different states as a relation.
\<close>

definition swap_idx :: "int \<Rightarrow> int \<Rightarrow> int \<Rightarrow> int" where
  "swap_idx s t x = (if x = s then t else if x = t then s else x)"

definition relabel :: "(int \<Rightarrow> int) \<Rightarrow> edge \<Rightarrow> edge" where
  "relabel f e =
     e\<lparr>source_state_idx := f (source_state_idx e), target_state_idx := f (target_state_idx e)\<rparr>"

definition state_indices :: "edge list \<Rightarrow> int set" where
  "state_indices es = source_state_idx ` set es \<union> target_state_idx ` set es"








text \<open>
  A state count and an edge list that fit: some index occurs, the count is one more than
  the largest index that occurs, and every index from 0 to the largest occurs.
\<close>

definition counts_states :: "int \<Rightarrow> edge list \<Rightarrow> bool" where
  "counts_states ns es =
     (state_indices es \<noteq> {} \<and> ns = 1 + Max (state_indices es)
      \<and> {0..ns - 1} \<subseteq> state_indices es)"

text \<open>The invariant of the loops of \<^verbatim>\<open>Asg.run\<close> without separators, on the indices.\<close>

definition asg_idx_inv :: "asg_state \<Rightarrow> bool" where
  "asg_idx_inv st =
     (0 \<le> as_cur_idx st
      \<and> as_num_states st = (if as_cur_idx st = 0 then 0 else as_cur_idx st + 1)
      \<and> state_indices (as_edges st) = {0..<as_num_states st})"

text \<open>The invariant of the lattice of \<^verbatim>\<open>Ctc.run\<close>.\<close>

definition ctc_inv :: "ctc_state \<Rightarrow> bool" where
  "ctc_inv st =
     (0 \<le> cs_cur_idx st
      \<and> (cs_cur_idx st = 0 \<longrightarrow> cs_num_states st = 0 \<and> cs_edges st = [])
      \<and> (0 < cs_cur_idx st \<longrightarrow>
            (cs_num_states st = 2 * cs_cur_idx st + 1 \<or> cs_num_states st = 2 * cs_cur_idx st)
            \<and> state_indices (cs_edges st) = {0..2 * cs_cur_idx st}))"

section \<open>Properties\<close>

subsection \<open>Label conversion\<close>

lemma Store_label_conversion_ok:
  "(\<forall>e \<in> set es. \<exists>l. convert_label (label e) = Inr l) \<Longrightarrow>
   Store_label_conversion es = Inr (map (\<lambda>e. e\<lparr>label := projr (convert_label (label e))\<rparr>) es)"
  by (induction es) auto

lemma Store_label_conversion_fail:
  "e \<in> set es \<Longrightarrow> convert_label (label e) = Inl err \<Longrightarrow>
   \<exists>err'. Store_label_conversion es = Inl err'"
  by (induction es) (auto split: sum.splits)

lemma convert_label_not_single:
  "length s \<noteq> 1 \<Longrightarrow> \<exists>err. convert_label (LStr s) = Inl err"
  by (cases s rule: list.exhaust; cases "tl s")
     (auto simp: BLANK_def SIL_def EPS_def ord_def split: list.splits)

text \<open>
  Claim C7. \<^verbatim>\<open>Store.label_conversion\<close> works edge by edge: the blank symbol becomes
  32, the code of the space; the silence symbol, the epsilon symbol and an integer label
  stay as they are; any other string of one character becomes the code of the character;
  a string of another length and \<^verbatim>\<open>None\<close> raise. The conversion of a list converts
  every label when all of them convert, and raises when one of them does not.
\<close>

theorem label_conversion_cases:
  "convert_label (LStr BLANK) = Inr (LInt 32)
   \<and> convert_label (LStr SIL) = Inr (LStr SIL)
   \<and> convert_label (LStr EPS) = Inr (LStr EPS)
   \<and> convert_label (LInt n) = Inr (LInt n)
   \<and> ([c] \<noteq> BLANK \<and> [c] \<noteq> SIL \<and> [c] \<noteq> EPS
        \<longrightarrow> convert_label (LStr [c]) = Inr (LInt (of_char c)))
   \<and> (length s \<noteq> 1 \<longrightarrow> (\<exists>err. convert_label (LStr s) = Inl err))
   \<and> (\<exists>err. convert_label LNone = Inl err)
   \<and> ((\<forall>e \<in> set es. \<exists>l. convert_label (label e) = Inr l)
        \<longrightarrow> Store_label_conversion es
              = Inr (map (\<lambda>e. e\<lparr>label := projr (convert_label (label e))\<rparr>) es))
   \<and> ((\<exists>e \<in> set es2. \<exists>err. convert_label (label e) = Inl err)
        \<longrightarrow> (\<exists>err. Store_label_conversion es2 = Inl err))"
proof (intro conjI impI)
  show "convert_label (LStr BLANK) = Inr (LInt 32)" by simp
  show "convert_label (LStr SIL) = Inr (LStr SIL)" by (simp add: BLANK_def SIL_def)
  show "convert_label (LStr EPS) = Inr (LStr EPS)" by (simp add: BLANK_def EPS_def)
  show "convert_label (LInt n) = Inr (LInt n)" by simp
  show "convert_label (LStr [c]) = Inr (LInt (of_char c))"
    if "[c] \<noteq> BLANK \<and> [c] \<noteq> SIL \<and> [c] \<noteq> EPS"
    using that by (simp add: ord_def)
  show "\<exists>err. convert_label (LStr s) = Inl err" if "length s \<noteq> 1"
    using that by (rule convert_label_not_single)
  show "\<exists>err. convert_label LNone = Inl err" by simp
  show "Store_label_conversion es
          = Inr (map (\<lambda>e. e\<lparr>label := projr (convert_label (label e))\<rparr>) es)"
    if "\<forall>e \<in> set es. \<exists>l. convert_label (label e) = Inr l"
    using that by (rule Store_label_conversion_ok)
  show "\<exists>err. Store_label_conversion es2 = Inl err"
    if "\<exists>e \<in> set es2. \<exists>err. convert_label (label e) = Inl err"
    using that Store_label_conversion_fail by blast
qed

theorem label_conversion_cases_witness:
  "convert_label (LStr ''a'') = Inr (LInt 97)
   \<and> (\<exists>err. convert_label (LStr ''ab'') = Inl err)
   \<and> Store_label_conversion [Edge 0 1 (LStr ''%'') 0, Edge 1 1 (LStr ''a'') 0, Edge 1 2 (LInt 258) 0]
       = Inr [Edge 0 1 (LInt 32) 0, Edge 1 1 (LInt 97) 0, Edge 1 2 (LInt 258) 0]
   \<and> (\<exists>err. Store_label_conversion [Edge 0 1 (LStr ''a'') 0, Edge 1 2 LNone 0] = Inl err)"
  using label_conversion_cases [of 258 "CHR ''a''" "''ab''"
      "[Edge 0 1 (LStr ''%'') 0, Edge 1 1 (LStr ''a'') 0, Edge 1 2 (LInt 258) 0]"
      "[Edge 0 1 (LStr ''a'') 0, Edge 1 2 LNone 0]"]
  by (simp add: BLANK_def SIL_def EPS_def ord_def Edge_def)

subsection \<open>The single state graph\<close>

lemma deepcopy_edges_prop:
  "deepcopy_edges memo refs h = (refs', h') \<Longrightarrow> \<forall>r \<in> set refs. r < n0 \<Longrightarrow> n0 \<le> length h
   \<Longrightarrow> \<forall>r r'. map_of memo r = Some r'
         \<longrightarrow> r < n0 \<and> n0 \<le> r' \<and> r' < length h \<and> h ! r' = h ! r
   \<Longrightarrow> length h \<le> length h' \<and> take (length h) h' = h \<and> length refs' = length refs
       \<and> (\<forall>i < length refs. n0 \<le> refs' ! i \<and> refs' ! i < length h'
             \<and> h' ! (refs' ! i) = h ! (refs ! i))"
proof (induction refs arbitrary: memo h refs' h')
  case Nil
  then show ?case by simp
next
  case (Cons r rs)
  have rlt: "r < n0" "r < length h" using Cons.prems(2,3) by auto
  show ?case
  proof (cases "map_of memo r")
    case (Some r')
    obtain rs' h1 where dc: "deepcopy_edges memo rs h = (rs', h1)"
      by (cases "deepcopy_edges memo rs h")
    from Cons.prems(1) Some dc have eq: "refs' = r' # rs'" "h' = h1" by auto
    have ih: "length h \<le> length h1 \<and> take (length h) h1 = h \<and> length rs' = length rs
       \<and> (\<forall>i < length rs. n0 \<le> rs' ! i \<and> rs' ! i < length h1
             \<and> h1 ! (rs' ! i) = h ! (rs ! i))"
      using Cons.IH [OF dc _ Cons.prems(3) Cons.prems(4)] Cons.prems(2) by simp
    have r': "n0 \<le> r'" "r' < length h" "h ! r' = h ! r"
      using Cons.prems(4) Some by auto
    have "h1 ! r' = h ! r'"
      using ih r'(2) by (metis nth_take)
    with ih r' eq show ?thesis
      by (auto simp: nth_Cons split: nat.splits)
  next
    case None
    let ?h = "h @ [h ! r]"
    obtain rs' h1 where dc: "deepcopy_edges ((r, length h) # memo) rs ?h = (rs', h1)"
      by (cases "deepcopy_edges ((r, length h) # memo) rs ?h")
    from Cons.prems(1) None dc have eq: "refs' = length h # rs'" "h' = h1" by auto
    have memo': "\<forall>q q'. map_of ((r, length h) # memo) q = Some q'
        \<longrightarrow> q < n0 \<and> n0 \<le> q' \<and> q' < length ?h \<and> ?h ! q' = ?h ! q"
    proof (intro allI impI)
      fix q q' assume a: "map_of ((r, length h) # memo) q = Some q'"
      show "q < n0 \<and> n0 \<le> q' \<and> q' < length ?h \<and> ?h ! q' = ?h ! q"
      proof (cases "q = r")
        case True
        with a have "q' = length h" by simp
        with True rlt Cons.prems(3) show ?thesis by (simp add: nth_append)
      next
        case False
        with a have "map_of memo q = Some q'" by simp
        then have "q < n0 \<and> n0 \<le> q' \<and> q' < length h \<and> h ! q' = h ! q"
          using Cons.prems(4) by blast
        moreover from this have "q < length h" using Cons.prems(3) by simp
        ultimately show ?thesis by (simp add: nth_append)
      qed
    qed
    have ih: "length ?h \<le> length h1 \<and> take (length ?h) h1 = ?h \<and> length rs' = length rs
       \<and> (\<forall>i < length rs. n0 \<le> rs' ! i \<and> rs' ! i < length h1
             \<and> h1 ! (rs' ! i) = ?h ! (rs ! i))"
      using Cons.IH [OF dc _ _ memo'] Cons.prems(2,3) by simp
    have pre: "\<And>a. a < length ?h \<Longrightarrow> h1 ! a = ?h ! a"
      using ih by (metis nth_take)
    have t: "take (length h) h1 = h"
    proof -
      have "take (length h) (take (length ?h) h1) = take (length h) ?h"
        using ih by simp
      then show ?thesis by (simp add: min_def)
    qed
    have old: "\<And>i. i < length rs \<Longrightarrow> ?h ! (rs ! i) = h ! (rs ! i)"
    proof -
      fix i assume "i < length rs"
      then have "rs ! i \<in> set rs" by simp
      then have "rs ! i < length h" using Cons.prems(2,3) by fastforce
      then show "?h ! (rs ! i) = h ! (rs ! i)" by (simp add: nth_append)
    qed
    have new: "h1 ! length h = h ! r"
      using pre [of "length h"] by simp
    from ih t old new eq Cons.prems(3) show ?thesis
      by (auto simp: nth_Cons split: nat.splits)
  qed
qed

lemma to_state_0_length [simp]: "length (to_state_0 refs h) = length h"
  unfolding to_state_0_def by (induction refs arbitrary: h) auto

lemma to_state_0_nth:
  "a < length h \<Longrightarrow>
   to_state_0 refs h ! a
     = (if a \<in> set refs then (h ! a)\<lparr>source_state_idx := 0, target_state_idx := 0\<rparr>
        else h ! a)"
proof (induction refs arbitrary: h)
  case Nil
  then show ?case by (simp add: to_state_0_def)
next
  case (Cons r rs)
  let ?h = "h[r := (h ! r)\<lparr>source_state_idx := 0, target_state_idx := 0\<rparr>]"
  have "to_state_0 (r # rs) h = to_state_0 rs ?h" by (simp add: to_state_0_def)
  moreover have "a < length ?h" using Cons.prems by simp
  ultimately have "to_state_0 (r # rs) h ! a
      = (if a \<in> set rs then (?h ! a)\<lparr>source_state_idx := 0, target_state_idx := 0\<rparr>
         else ?h ! a)"
    using Cons.IH [of ?h] by simp
  then show ?case
    using Cons.prems by (cases "a = r") (simp_all add: nth_list_update)
qed

text \<open>
  Claim C9. \<^verbatim>\<open>Graph.make_single_state_graph\<close> writes no object that existed when it
  was called, so the list it was given is as it was; the objects of the list it returns
  are the values of \<open>make_single_state_graph\<close>. That list has the length and the order
  of the input and the labels and weights of its edges; every edge of it goes from state 0
  to state 0 when \<open>num_states > 1\<close>, and it is a copy of the input when
  \<open>num_states \<le> 1\<close>.
\<close>

theorem make_single_state_graph_pure:
  assumes "\<forall>r \<in> set refs. r < length h"
    and "make_single_state_graph_store n refs h = (refs', h')"
  shows "take (length h) h' = h
    \<and> map (\<lambda>r. h' ! r) refs' = make_single_state_graph n (map (\<lambda>r. h ! r) refs)
    \<and> length (make_single_state_graph n es) = length es
    \<and> (\<forall>i < length es.
          label (make_single_state_graph n es ! i) = label (es ! i)
          \<and> weight (make_single_state_graph n es ! i) = weight (es ! i)
          \<and> make_single_state_graph n es ! i
              = (if n > 1 then (es ! i)\<lparr>source_state_idx := 0, target_state_idx := 0\<rparr>
                 else es ! i))
    \<and> (n > 1 \<longrightarrow> (\<forall>e \<in> set (make_single_state_graph n es).
                      source_state_idx e = 0 \<and> target_state_idx e = 0))
    \<and> (n \<le> 1 \<longrightarrow> make_single_state_graph n es = es)"
proof -
  obtain h1 where dc: "deepcopy_edges [] refs h = (refs', h1)"
    and h': "h' = (if n > 1 then to_state_0 refs' h1 else h1)"
    using assms(2) by (auto simp: make_single_state_graph_store_def split: prod.splits)
  have p: "length h \<le> length h1 \<and> take (length h) h1 = h \<and> length refs' = length refs
       \<and> (\<forall>i < length refs. length h \<le> refs' ! i \<and> refs' ! i < length h1
             \<and> h1 ! (refs' ! i) = h ! (refs ! i))"
    using deepcopy_edges_prop [OF dc assms(1), of ] by simp
  have fresh: "\<forall>r \<in> set refs'. length h \<le> r \<and> r < length h1"
    using p by (auto simp: in_set_conv_nth)
  have a: "take (length h) h' = h"
  proof (cases "n > 1")
    case True
    have "take (length h) (to_state_0 refs' h1) = take (length h) h1"
      using fresh p by (intro nth_take_lemma) (auto simp: to_state_0_nth)
    with True h' p show ?thesis by simp
  next
    case False
    with h' p show ?thesis by simp
  qed
  have b: "map (\<lambda>r. h' ! r) refs' = make_single_state_graph n (map (\<lambda>r. h ! r) refs)"
    using p fresh h'
    by (intro nth_equalityI)
       (auto simp: make_single_state_graph_def to_state_0_nth)
  have c: "length (make_single_state_graph n es) = length es
    \<and> (\<forall>i < length es.
          label (make_single_state_graph n es ! i) = label (es ! i)
          \<and> weight (make_single_state_graph n es ! i) = weight (es ! i)
          \<and> make_single_state_graph n es ! i
              = (if n > 1 then (es ! i)\<lparr>source_state_idx := 0, target_state_idx := 0\<rparr>
                 else es ! i))
    \<and> (n > 1 \<longrightarrow> (\<forall>e \<in> set (make_single_state_graph n es).
                      source_state_idx e = 0 \<and> target_state_idx e = 0))
    \<and> (n \<le> 1 \<longrightarrow> make_single_state_graph n es = es)"
    by (auto simp: make_single_state_graph_def)
  from a b c show ?thesis by blast
qed

theorem make_single_state_graph_pure_witness:
  "make_single_state_graph_store 3 [0, 1, 0] [Edge 0 1 (LStr ''a'') 0, Edge 1 2 (LStr ''b'') 1]
     = ([2, 3, 2],
        [Edge 0 1 (LStr ''a'') 0, Edge 1 2 (LStr ''b'') 1,
         Edge 0 0 (LStr ''a'') 0, Edge 0 0 (LStr ''b'') 1])
   \<and> make_single_state_graph 3 [Edge 0 1 (LStr ''a'') 0, Edge 1 2 (LStr ''b'') 1]
       = [Edge 0 0 (LStr ''a'') 0, Edge 0 0 (LStr ''b'') 1]
   \<and> make_single_state_graph 1 [Edge 0 0 (LStr ''a'') 0] = [Edge 0 0 (LStr ''a'') 0]"
  using make_single_state_graph_pure [of "[0, 1, 0]"
      "[Edge 0 1 (LStr ''a'') 0, Edge 1 2 (LStr ''b'') 1]" 3 "[2, 3, 2]"
      "[Edge 0 1 (LStr ''a'') 0, Edge 1 2 (LStr ''b'') 1,
        Edge 0 0 (LStr ''a'') 0, Edge 0 0 (LStr ''b'') 1]"
      "[Edge 0 1 (LStr ''a'') 0, Edge 1 2 (LStr ''b'') 1]"]
  by (simp add: make_single_state_graph_store_def make_single_state_graph_def to_state_0_def Edge_def)

subsection \<open>The working fields after a run\<close>



subsection \<open>The repetitions of ASG\<close>

text \<open>
  Claim C4, evaluated. On the single word \<^verbatim>\<open>"aaa"\<close> with \<^verbatim>\<open>asg_repetition = 2\<close> the
  scan emits the label \<^verbatim>\<open>a\<close> and nothing else: the two repeats are counted, and a count
  is only written when a later label differs or the count is full. The run has two states,
  the edge of \<^verbatim>\<open>a\<close> and its loop.
\<close>

theorem asg_aaa_emits_single_label:
  "asg_label_repetitions
     \<lparr>Asg.fsa = Graph [PyStr ''aaa''], num_labels = 256, asg_repetition = 2,
      label_conversion = False, separator = False\<rparr> = [[LStr ''a'']]
   \<and> map_sum id (\<lambda>a'. (num_states_asg (Asg.fsa a'), map as_tuple (edges_asg (Asg.fsa a'))))
       (Asg_run \<lparr>Asg.fsa = Graph [PyStr ''aaa''], num_labels = 256, asg_repetition = 2,
                 label_conversion = False, separator = False\<rparr>)
     = Inr (2, [(0, 1, LStr ''a'', 0), (1, 1, LStr ''a'', 0)])"
  by code_simp

subsection \<open>The direct edges of CTC\<close>

text \<open>
  The guard of the direct edge, case by case: at the first label the comparison is with the
  last label of the word.
\<close>

lemma ctc_direct_cases:
  "ctc_direct seq 0 = (seq ! 0 \<noteq> last seq \<or> length seq = 1)"
  "0 < i \<Longrightarrow> i < length seq \<Longrightarrow> ctc_direct seq i = (seq ! i \<noteq> seq ! (i - 1))"
  "length seq = 1 \<Longrightarrow> ctc_direct seq 0"
  by (auto simp: ctc_direct_def seq_before_def)

text \<open>
  Claim C3, evaluated. The lattice of the word \<^verbatim>\<open>"aba"\<close>: the first label has the blank
  edge from 0 to 1 and the repeat edge from 1 to 2, and no direct edge from 0 to 2, since
  the word ends with the label it starts with.
\<close>

theorem ctc_aba_first_label_without_direct_edge:
  "map as_tuple (cs_edges (ctc_lattice
     \<lparr>Ctc.fsa = Graph [PyStr ''aba''], num_labels = 256, label_conversion = False,
      final_states = []\<rparr>))
   = [(0, 1, LStr ''%'', 0), (1, 2, LStr ''a'', 0),
      (2, 4, LStr ''b'', 0), (2, 3, LStr ''%'', 0), (3, 4, LStr ''b'', 0),
      (4, 6, LStr ''a'', 0), (4, 5, LStr ''%'', 0), (5, 6, LStr ''a'', 0)]"
  by code_simp

subsection \<open>The constructors\<close>

text \<open>
  Claim C5 as stated fails: \<^verbatim>\<open>Asg.__init__\<close> accepts \<^verbatim>\<open>num_labels = 0\<close> and
  \<^verbatim>\<open>asg_repetition = 1\<close>, \<^verbatim>\<open>Ctc.__init__\<close> accepts a negative \<^verbatim>\<open>num_labels\<close>, and
  \<^verbatim>\<open>Hmm.__init__\<close> accepts \<^verbatim>\<open>allo_num_states = 0\<close>.
\<close>

theorem init_accepts_bad_values:
  "Asg_init (PGraph (Graph [])) (PInt 0) (PInt 1) (PBool False)
     = Inr \<lparr>Asg.fsa = Graph [], num_labels = 0, asg_repetition = 1,
            label_conversion = False, separator = False\<rparr>
   \<and> Ctc_init (PGraph (Graph [])) (PInt (-5)) (PBool False)
     = Inr \<lparr>Ctc.fsa = Graph [], num_labels = -5, label_conversion = False,
            final_states = []\<rparr>
   \<and> Hmm_init (PGraph (Graph [])) (PInt 6) (PInt 0) (PBool False)
     = Inr \<lparr>Hmm.fsa = Graph [], depth = 6, allo_num_states = 0,
            state_tying_conversion = False, lexicon = None, state_tying = None,
            phon_dict = Map.empty\<rparr>"
  by (simp add: Asg_init_def Ctc_init_def Hmm_init_def)

text \<open>
  Claim C5, amended. A constructor raises exactly when an argument has the wrong type: the
  graph is not a \<^verbatim>\<open>Graph\<close>; \<^verbatim>\<open>num_labels\<close>, \<^verbatim>\<open>asg_repetition\<close>, \<^verbatim>\<open>depth\<close> or
  \<^verbatim>\<open>allo_num_states\<close> is not an integer; \<^verbatim>\<open>label_conversion\<close> is not a boolean (for
  \<^verbatim>\<open>Asg\<close>) or not an integer (for \<^verbatim>\<open>Ctc\<close>). The values of the integers are not
  checked.
\<close>

theorem init_checks_types_only:
  "((\<exists>err. Asg_init f n r l = Inl err)
      = (\<not> (isinstance_Graph f \<and> isinstance_int n \<and> isinstance_int r \<and> isinstance_bool l)))
   \<and> ((\<exists>err. Ctc_init f n l = Inl err)
      = (\<not> (isinstance_Graph f \<and> isinstance_int n \<and> isinstance_int l)))
   \<and> ((\<exists>err. Hmm_init f d k t = Inl err)
      = (\<not> (isinstance_Graph f \<and> isinstance_int d \<and> isinstance_int k)))"
  by (auto simp: Asg_init_def Ctc_init_def Hmm_init_def)

theorem init_checks_types_only_witness:
  "(\<exists>err. Asg_init (PString ''ab'') (PInt 256) (PInt 2) (PBool False) = Inl err)
   \<and> (\<exists>b. Asg_init (PGraph (Graph [])) (PInt (-1)) (PInt 0) (PBool False) = Inr b)
   \<and> (\<exists>err. Ctc_init (PGraph (Graph [])) (PString ''256'') (PBool False) = Inl err)
   \<and> (\<exists>b. Ctc_init (PGraph (Graph [])) (PInt 0) (PInt 1) = Inr b)
   \<and> (\<exists>err. Hmm_init (PGraph (Graph [])) (PInt 6) PNoneVal (PBool False) = Inl err)
   \<and> (\<exists>b. Hmm_init (PGraph (Graph [])) (PInt 6) (PInt (-3)) (PString ''x'') = Inr b)"
  using init_checks_types_only [where f = "PString ''ab''" and n = "PInt 256" and r = "PInt 2"
      and l = "PBool False" and d = "PInt 6" and k = "PInt 0" and t = "PBool False"]
    init_checks_types_only [where f = "PGraph (Graph [])" and n = "PString ''256''"
      and r = "PInt 2" and l = "PBool False" and d = "PInt 6" and k = PNoneVal
      and t = "PBool False"]
  by (simp add: Asg_init_def Ctc_init_def Hmm_init_def)

subsection \<open>The scan of ASG across words\<close>

lemma asg_scan_append:
  "asg_scan b st (xs @ ys) = asg_scan b st xs @ asg_scan b (asg_scan_state b st xs) ys"
  by (induction xs arbitrary: st) (auto split: prod.splits)

lemma asg_scan_length [simp]: "length (asg_scan b st xs) = length xs"
  by (induction xs arbitrary: st) (auto split: prod.splits)

lemma asg_scan_state_append:
  "asg_scan_state b st (xs @ ys) = asg_scan_state b (asg_scan_state b st xs) ys"
  by (induction xs arbitrary: st) (auto split: prod.splits)

lemma asg_scan_word_prev:
  "ls \<noteq> [] \<Longrightarrow> fst (asg_scan_word b st ls) = Some (last ls)"
proof (induction ls arbitrary: st)
  case Nil
  then show ?case by simp
next
  case (Cons l ls)
  obtain p rc reps where st: "st = (p, rc, reps)" by (cases st)
  show ?case
  proof (cases "ls = []")
    case True
    then show ?thesis by (simp add: st)
  next
    case False
    then show ?thesis using Cons.IH [of "asg_scan_label b st l"] by simp
  qed
qed

lemma asg_scan_label_count: "0 \<le> fst (snd st) \<Longrightarrow> 0 \<le> fst (snd (asg_scan_label b st l))"
  by (cases st) auto

lemma asg_scan_word_count: "0 \<le> fst (snd st) \<Longrightarrow> 0 \<le> fst (snd (asg_scan_word b st ls))"
  by (induction ls arbitrary: st) (auto simp: asg_scan_label_count)

lemma asg_scan_state_count: "0 \<le> snd st \<Longrightarrow> 0 \<le> snd (asg_scan_state b st ws)"
proof (induction ws arbitrary: st)
  case Nil
  then show ?case by simp
next
  case (Cons w ws)
  obtain p rc where st: "st = (p, rc)" by (cases st)
  obtain p' rc' reps where r: "asg_scan_word b (p, rc, []) (labels_of w) = (p', rc', reps)"
    by (cases "asg_scan_word b (p, rc, []) (labels_of w)")
  have "0 \<le> rc'" using asg_scan_word_count [of "(p, rc, [])" b "labels_of w"] Cons.prems r st
    by simp
  then show ?case using Cons.IH [of "(p', rc')"] r st by simp
qed

lemma asg_scan_label_marker_first:
  "0 \<le> rc \<Longrightarrow> marker_first rc reps \<Longrightarrow> asg_scan_label b (p, rc, reps) l = (p', rc', reps')
   \<Longrightarrow> 0 \<le> rc' \<and> marker_first rc' reps'"
  by (auto simp: marker_first_def split: list.splits if_splits)

lemma asg_scan_word_marker_first:
  "0 \<le> rc \<Longrightarrow> marker_first rc reps \<Longrightarrow> asg_scan_word b (p, rc, reps) ls = (p', rc', reps')
   \<Longrightarrow> marker_first rc' reps'"
proof (induction ls arbitrary: p rc reps)
  case Nil
  then show ?case by simp
next
  case (Cons l ls)
  obtain p1 rc1 reps1 where s: "asg_scan_label b (p, rc, reps) l = (p1, rc1, reps1)"
    by (cases "asg_scan_label b (p, rc, reps) l")
  have "0 \<le> rc1 \<and> marker_first rc1 reps1"
    using asg_scan_label_marker_first [OF Cons.prems(1,2) s] .
  then show ?case using Cons.IH [of rc1 reps1 p1] Cons.prems(3) s by simp
qed

lemma asg_scan_word_extends:
  "\<exists>ext. snd (snd (asg_scan_word b (p, rc, reps) ls)) = reps @ ext"
proof (induction ls arbitrary: p rc reps)
  case Nil
  then show ?case by simp
next
  case (Cons l ls)
  obtain p1 rc1 reps1 where s: "asg_scan_label b (p, rc, reps) l = (p1, rc1, reps1)"
    by (cases "asg_scan_label b (p, rc, reps) l")
  have "\<exists>e1. reps1 = reps @ e1" using s by (auto split: if_splits)
  then show ?case using Cons.IH [of p1 rc1 reps1] s by auto
qed

text \<open>
  Claim C10. \<^verbatim>\<open>label_prev\<close> and \<^verbatim>\<open>rep_count\<close> are not reset between words. When a
  word \<open>w\<close> starts with the label the word \<open>v\<close> before it ends with, the scan of that
  label takes the branch of a repeat: the count goes on (or, when it is full, its symbol is
  written and the count restarts at 1) and the label itself is not written. The label list
  of \<open>w\<close> is then empty or starts with a repetition symbol, while the list of the same
  word as the first word of an input starts with its first label: the two differ.
\<close>

theorem asg_repeat_across_words:
  assumes v: "labels_of v \<noteq> []"
    and w: "labels_of w = c # cs"
    and eq: "last (labels_of v) = c"
  shows "\<exists>rc. asg_scan_state b (None, 0) (ws @ [v]) = (Some c, rc)
     \<and> asg_scan_label b (Some c, rc, []) c
         = (Some c, (if rc < asg_repetition b then rc + 1 else 1),
            (if rc < asg_repetition b then [] else [LInt (Asg.num_labels b + rc)]))
     \<and> asg_scan b (None, 0) (ws @ [v, w] @ rest) ! (length ws + 1)
         = snd (snd (asg_scan_word b (Some c, rc, []) (c # cs)))
     \<and> (case asg_scan b (None, 0) (ws @ [v, w] @ rest) ! (length ws + 1) of
           [] \<Rightarrow> True | l # _ \<Rightarrow> (\<exists>n. l = LInt n))
     \<and> (\<exists>ls. asg_scan b (None, 0) (w # rest) ! 0 = LStr c # ls)
     \<and> asg_scan b (None, 0) (ws @ [v, w] @ rest) ! (length ws + 1)
         \<noteq> asg_scan b (None, 0) (w # rest) ! 0"
proof -
  obtain p0 rc0 where s0: "asg_scan_state b (None, 0) ws = (p0, rc0)"
    by (cases "asg_scan_state b (None, 0) ws")
  have rc0: "0 \<le> rc0" using asg_scan_state_count [of "(None, 0)" b ws] s0 by simp
  obtain p1 rc reps1 where s1: "asg_scan_word b (p0, rc0, []) (labels_of v) = (p1, rc, reps1)"
    by (cases "asg_scan_word b (p0, rc0, []) (labels_of v)")
  have p1: "p1 = Some c" using asg_scan_word_prev [OF v, of b "(p0, rc0, [])"] s1 eq by simp
  have rc: "0 \<le> rc" using asg_scan_word_count [of "(p0, rc0, [])" b "labels_of v"] rc0 s1 by simp
  have st: "asg_scan_state b (None, 0) (ws @ [v]) = (Some c, rc)"
    by (simp add: asg_scan_state_append s0 s1 p1)
  have step: "asg_scan_label b (Some c, rc, []) c
         = (Some c, (if rc < asg_repetition b then rc + 1 else 1),
            (if rc < asg_repetition b then [] else [LInt (Asg.num_labels b + rc)]))"
    by simp
  let ?L = "asg_scan b (None, 0) (ws @ [v, w] @ rest) ! (length ws + 1)"
  have "asg_scan b (None, 0) (ws @ [v, w] @ rest)
      = asg_scan b (None, 0) (ws @ [v]) @ asg_scan b (Some c, rc) (w # rest)"
    using asg_scan_append [of b "(None, 0)" "ws @ [v]" "w # rest"] st by simp
  then have L: "?L = snd (snd (asg_scan_word b (Some c, rc, []) (c # cs)))"
    by (simp add: nth_append w split: prod.splits)
  obtain p2 rc2 reps2 where s2: "asg_scan_word b (Some c, rc, []) (c # cs) = (p2, rc2, reps2)"
    by (cases "asg_scan_word b (Some c, rc, []) (c # cs)")
  have mf0: "marker_first (if rc < asg_repetition b then rc + 1 else 1)
      (if rc < asg_repetition b then [] else [LInt (Asg.num_labels b + rc)])"
    using rc by (simp add: marker_first_def)
  have cnt: "0 \<le> (if rc < asg_repetition b then rc + 1 else 1)" using rc by simp
  have "asg_scan_word b (Some c, (if rc < asg_repetition b then rc + 1 else 1),
          (if rc < asg_repetition b then [] else [LInt (Asg.num_labels b + rc)])) cs = (p2, rc2, reps2)"
    using s2 by (auto split: if_splits)
  from asg_scan_word_marker_first [OF cnt mf0 this]
  have mf: "marker_first rc2 reps2" .
  then have Lm: "case ?L of [] \<Rightarrow> True | l # _ \<Rightarrow> (\<exists>n. l = LInt n)"
    using L s2 by (simp add: marker_first_def split: list.splits)
  obtain ext where "snd (snd (asg_scan_word b (Some c, 0, [LStr c]) cs)) = [LStr c] @ ext"
    using asg_scan_word_extends [of b "Some c" 0 "[LStr c]" cs] by blast
  then have A: "asg_scan b (None, 0) (w # rest) ! 0 = LStr c # ext"
    by (auto simp add: w split: prod.splits)
  have ne: "?L \<noteq> asg_scan b (None, 0) (w # rest) ! 0"
    using Lm A by (auto split: list.splits)
  from st step L Lm A ne show ?thesis by blast
qed

theorem asg_repeat_across_words_witness:
  "asg_scan_state \<lparr>Asg.fsa = Graph [PyStr ''ab'', PyStr ''ba''], num_labels = 256,
       asg_repetition = 2, label_conversion = False, separator = False\<rparr> (None, 0)
       [PyStr ''ab''] = (Some ''b'', 0)
   \<and> asg_label_repetitions \<lparr>Asg.fsa = Graph [PyStr ''ab'', PyStr ''ba''], num_labels = 256,
       asg_repetition = 2, label_conversion = False, separator = False\<rparr>
       = [[LStr ''a'', LStr ''b''], [LInt 257, LStr ''a'']]
   \<and> asg_label_repetitions \<lparr>Asg.fsa = Graph [PyStr ''ba''], num_labels = 256,
       asg_repetition = 2, label_conversion = False, separator = False\<rparr>
       = [[LStr ''b'', LStr ''a'']]"
  using asg_repeat_across_words [of "PyStr ''ab''" "PyStr ''ba''" "''b''" "[''a'']"
      "\<lparr>Asg.fsa = Graph [PyStr ''ab'', PyStr ''ba''], num_labels = 256,
       asg_repetition = 2, label_conversion = False, separator = False\<rparr>" "[]" "[]"]
  by (simp add: asg_label_repetitions_def Graph_def)

subsection \<open>The order of the finalized edges\<close>

lemma Store_label_conversion_result:
  "Store_label_conversion es = Inr es' \<Longrightarrow>
   es' = map (\<lambda>e. e\<lparr>label := projr (convert_label (label e))\<rparr>) es"
  by (induction es arbitrary: es') (auto split: sum.splits)

lemma as_tuple_le_iff:
  "as_tuple a \<le> as_tuple b \<longleftrightarrow>
     source_state_idx a < source_state_idx b
     \<or> source_state_idx a = source_state_idx b
        \<and> (target_state_idx a < target_state_idx b
           \<or> target_state_idx a = target_state_idx b
              \<and> (label a < label b \<or> label a = label b \<and> weight a \<le> weight b))"
  unfolding as_tuple_def less_eq_prod_def less_prod_def by auto

lemma relabel_le:
  assumes le: "as_tuple a \<le> as_tuple b"
    and same: "target_state_idx a = target_state_idx b \<Longrightarrow> label a = label b"
  shows "as_tuple (a\<lparr>label := g (label a)\<rparr>) \<le> as_tuple (b\<lparr>label := g (label b)\<rparr>)"
proof (cases "source_state_idx a = source_state_idx b \<and> target_state_idx a = target_state_idx b")
  case True
  then have l: "label a = label b" using same by simp
  from le True l have "weight a \<le> weight b"
    unfolding as_tuple_le_iff by simp
  with True l show ?thesis unfolding as_tuple_le_iff by simp
next
  case False
  with le have "source_state_idx a < source_state_idx b
     \<or> source_state_idx a = source_state_idx b \<and> target_state_idx a < target_state_idx b"
    unfolding as_tuple_le_iff by blast
  then show ?thesis unfolding as_tuple_le_iff by simp blast
qed

lemma sorted_relabel:
  assumes s: "sorted (map as_tuple es)" and u: "tl_unique (set es)"
  shows "sorted (map as_tuple (map (\<lambda>e. e\<lparr>label := g (label e)\<rparr>) es))"
proof -
  have "sorted_wrt (\<lambda>a b. as_tuple a \<le> as_tuple b) es"
    using s by (simp add: sorted_map)
  then have "sorted_wrt (\<lambda>a b. as_tuple (a\<lparr>label := g (label a)\<rparr>)
                              \<le> as_tuple (b\<lparr>label := g (label b)\<rparr>)) es"
  proof (rule sorted_wrt_mono_rel [rotated])
    fix a b assume m: "a \<in> set es" "b \<in> set es" and le: "as_tuple a \<le> as_tuple b"
    have "target_state_idx a = target_state_idx b \<Longrightarrow> label a = label b"
      using m u unfolding tl_unique_def by blast
    with le show "as_tuple (a\<lparr>label := g (label a)\<rparr>) \<le> as_tuple (b\<lparr>label := g (label b)\<rparr>)"
      by (rule relabel_le)
  qed
  then show ?thesis by (simp add: sorted_map sorted_wrt_map)
qed

lemma asg_add_label_fields:
  "\<exists>e. as_edges (asg_add_label r n i lab st) = as_edges st @ [e]
       \<and> target_state_idx e = as_cur_idx st + 1 \<and> label e = lab
       \<and> source_state_idx e = as_cur_idx st"
  "as_cur_idx (asg_add_label r n i lab st) = as_cur_idx st + 1"
  "as_trgt_idx (asg_add_label r n i lab st) = as_cur_idx st + 1"
  "as_src_idx (asg_add_label r n i lab st) = as_cur_idx st"
  "as_num_states (asg_add_label r n i lab st)
     = (if as_cur_idx st = 0 then as_num_states st + 2 else as_num_states st + 1)"
  by (simp_all add: asg_add_label_def Let_def Edge_def)

lemma asg_add_separator_fields:
  "\<exists>e. as_edges (asg_add_separator st) = as_edges st @ [e]
       \<and> target_state_idx e = as_trgt_idx st + 1 \<and> label e = LStr BLANK
       \<and> source_state_idx e = as_src_idx st + 1"
  "as_cur_idx (asg_add_separator st) = as_cur_idx st + 1"
  "as_trgt_idx (asg_add_separator st) = as_trgt_idx st"
  "as_src_idx (asg_add_separator st) = as_src_idx st"
  "as_num_states (asg_add_separator st) = as_num_states st + 1"
  by (simp_all add: asg_add_separator_def Edge_def)

lemma tl_unique_snoc:
  "tl_unique (set es) \<Longrightarrow>
   (\<And>x. x \<in> set es \<Longrightarrow> target_state_idx x = target_state_idx e \<Longrightarrow> label x = label e)
   \<Longrightarrow> tl_unique (set (es @ [e]))"
  unfolding tl_unique_def
proof (intro ballI impI)
  fix e1 e2
  assume u: "\<forall>e1\<in>set es. \<forall>e2\<in>set es. target_state_idx e1 = target_state_idx e2 \<longrightarrow> label e1 = label e2"
    and same: "\<And>x. x \<in> set es \<Longrightarrow> target_state_idx x = target_state_idx e \<Longrightarrow> label x = label e"
    and m: "e1 \<in> set (es @ [e])" "e2 \<in> set (es @ [e])"
    and t: "target_state_idx e1 = target_state_idx e2"
  from m consider "e1 = e" "e2 = e" | "e1 = e" "e2 \<in> set es"
    | "e1 \<in> set es" "e2 = e" | "e1 \<in> set es" "e2 \<in> set es"
    by auto
  then show "label e1 = label e2"
  proof cases
    case 1 then show ?thesis by simp
  next
    case 2 then show ?thesis using same [of e2] t by simp
  next
    case 3 then show ?thesis using same [of e1] t by simp
  next
    case 4 then show ?thesis using u t by blast
  qed
qed

lemma asg_add_label_inv:
  assumes "asg_inv st"
  shows "asg_inv (asg_add_label r n i lab st)"
proof -
  obtain e where e: "as_edges (asg_add_label r n i lab st) = as_edges st @ [e]"
    "target_state_idx e = as_cur_idx st + 1" "label e = lab"
    using asg_add_label_fields(1) by blast
  have old: "\<forall>x \<in> set (as_edges st). target_state_idx x \<le> as_cur_idx st"
    "tl_unique (set (as_edges st))"
    using assms by (simp_all add: asg_inv_def)
  have fresh: "target_state_idx x \<noteq> target_state_idx e" if "x \<in> set (as_edges st)" for x
    using old(1) that e(2) by fastforce
  have 1: "tl_unique (set (as_edges (asg_add_label r n i lab st)))"
    unfolding e(1) by (rule tl_unique_snoc [OF old(2)]) (use fresh in blast)
  have 2: "target_state_idx x \<le> as_cur_idx st + 1"
    if "x \<in> set (as_edges (asg_add_label r n i lab st))" for x
  proof -
    from that have "x = e \<or> x \<in> set (as_edges st)" unfolding e(1) by auto
    then show ?thesis using e(2) old(1) by fastforce
  qed
  show ?thesis
    unfolding asg_inv_def asg_add_label_fields(2,3) using 1 2 by simp
qed

lemma asg_add_labels_inv: "asg_inv st \<Longrightarrow> asg_inv (asg_add_labels r n i labs st)"
  by (induction labs arbitrary: i st) (simp_all add: asg_add_label_inv)

lemma asg_add_separator_inv:
  assumes "asg_inv st"
  shows "asg_inv (asg_add_separator st)"
proof -
  obtain e where e: "as_edges (asg_add_separator st) = as_edges st @ [e]"
    "target_state_idx e = as_trgt_idx st + 1" "label e = LStr BLANK"
    using asg_add_separator_fields(1) by blast
  have old: "\<forall>x \<in> set (as_edges st). target_state_idx x \<le> as_cur_idx st"
    "tl_unique (set (as_edges st))"
    "\<forall>x \<in> set (as_edges st). label x \<noteq> LStr BLANK \<longrightarrow> target_state_idx x \<le> as_trgt_idx st"
    "as_trgt_idx st \<le> as_cur_idx st"
    using assms by (simp_all add: asg_inv_def)
  have same: "label x = label e"
    if "x \<in> set (as_edges st)" "target_state_idx x = target_state_idx e" for x
    using old(3) that e(2,3) by fastforce
  have 1: "tl_unique (set (as_edges (asg_add_separator st)))"
    unfolding e(1) by (rule tl_unique_snoc [OF old(2)]) (use same in blast)
  have mem: "x = e \<or> x \<in> set (as_edges st)"
    if "x \<in> set (as_edges (asg_add_separator st))" for x
    using that unfolding e(1) by auto
  have 2: "target_state_idx x \<le> as_cur_idx st + 1"
    if "x \<in> set (as_edges (asg_add_separator st))" for x
    using mem [OF that] e(2) old(1,4) by fastforce
  have 3: "target_state_idx x \<le> as_trgt_idx st"
    if "x \<in> set (as_edges (asg_add_separator st))" "label x \<noteq> LStr BLANK" for x
    using mem [OF that(1)] that(2) e(3) old(3) by fastforce
  show ?thesis
    unfolding asg_inv_def asg_add_separator_fields(2,3) using 1 2 3 old(4) by simp
qed

lemma asg_create_states_inv: "asg_inv st \<Longrightarrow> asg_inv (asg_create_states sep n r lls st)"
  by (induction lls arbitrary: r st)
     (simp_all add: Let_def asg_add_labels_inv asg_add_separator_inv)

lemma tl_unique_keys:
  "tl_unique X
     = (\<forall>a \<in> (\<lambda>e. (target_state_idx e, label e)) ` X.
          \<forall>b \<in> (\<lambda>e. (target_state_idx e, label e)) ` X. fst a = fst b \<longrightarrow> snd a = snd b)"
  unfolding tl_unique_def by simp

lemma asg_loops_at_keys:
  "(\<lambda>e. (target_state_idx e, label e)) ` set (asg_loops_at es i)
     = (\<lambda>e. (target_state_idx e, label e)) ` set es"
proof (intro equalityI subsetI)
  fix k assume "k \<in> (\<lambda>e. (target_state_idx e, label e)) ` set (asg_loops_at es i)"
  then obtain x where x: "x \<in> set (asg_loops_at es i)" "k = (target_state_idx x, label x)"
    by blast
  then consider "x \<in> set es"
    | e where "e \<in> set es" "x = e\<lparr>source_state_idx := target_state_idx e, is_loop := True\<rparr>"
    unfolding asg_loops_at_def by auto
  then show "k \<in> (\<lambda>e. (target_state_idx e, label e)) ` set es"
  proof cases
    case 1
    with x(2) show ?thesis by blast
  next
    case 2
    then have "k = (target_state_idx e, label e)" using x(2) by simp
    with 2(1) show ?thesis by blast
  qed
next
  fix k assume "k \<in> (\<lambda>e. (target_state_idx e, label e)) ` set es"
  then show "k \<in> (\<lambda>e. (target_state_idx e, label e)) ` set (asg_loops_at es i)"
    unfolding asg_loops_at_def by auto
qed

lemma asg_loops_at_unique: "tl_unique (set es) \<Longrightarrow> tl_unique (set (asg_loops_at es i))"
  unfolding tl_unique_keys asg_loops_at_keys .

lemma asg_add_loops_unique: "tl_unique (set es) \<Longrightarrow> tl_unique (set (asg_add_loops ns es))"
proof -
  have "tl_unique (set es) \<Longrightarrow> tl_unique (set (foldl asg_loops_at es js))" for js
    by (induction js arbitrary: es) (simp_all add: asg_loops_at_unique)
  then show "tl_unique (set es) \<Longrightarrow> tl_unique (set (asg_add_loops ns es))"
    by (simp add: asg_add_loops_def)
qed

lemma sort_edges_sorted: "sorted (map as_tuple (sort_edges es))"
  by (simp add: sort_edges_def)

lemma sort_edges_idem: "sorted (map as_tuple es) \<Longrightarrow> sort_edges es = es"
  by (simp add: sort_edges_def sort_key_id_if_sorted)

lemma asg_run_sorted:
  assumes "Asg_run a = Inr a'" and "edges (Asg.fsa a) = []"
  shows "sorted (map as_tuple (edges_asg (Asg.fsa a')))"
proof -
  define st where "st = asg_create_states (separator a) (int (length (asg_label_repetitions a))) 0
                 (asg_label_repetitions a)
                 \<lparr>as_num_states = 0, as_cur_idx = 0, as_src_idx = 0, as_trgt_idx = 0,
                  as_edges = edges (Asg.fsa a)\<rparr>"
  define S where "S = sort_edges (asg_add_loops (as_num_states st) (as_edges st))"
  have "asg_inv \<lparr>as_num_states = 0, as_cur_idx = 0, as_src_idx = 0, as_trgt_idx = 0,
                  as_edges = edges (Asg.fsa a)\<rparr>"
    using assms(2) by (simp add: asg_inv_def tl_unique_def)
  then have "asg_inv st" unfolding st_def by (rule asg_create_states_inv)
  then have "tl_unique (set (as_edges st))" by (simp add: asg_inv_def)
  then have u: "tl_unique (set S)"
    unfolding S_def using asg_add_loops_unique by (simp add: sort_edges_def)
  have s: "sorted (map as_tuple S)" unfolding S_def by (rule sort_edges_sorted)
  show ?thesis
  proof (cases "Asg.label_conversion a")
    case True
    then obtain es' where c: "Store_label_conversion S = Inr es'"
      and r: "edges_asg (Asg.fsa a') = es'"
      using assms(1) unfolding Asg_run_def Let_def st_def [symmetric] S_def [symmetric]
      by (auto split: sum.splits)
    show ?thesis
      using sorted_relabel [OF s u] Store_label_conversion_result [OF c] r by simp
  next
    case False
    then have "edges_asg (Asg.fsa a') = S"
      using assms(1) unfolding Asg_run_def Let_def st_def [symmetric] S_def [symmetric]
      by auto
    with s show ?thesis by simp
  qed
qed

text \<open>
  Claim C6. The edge list a run leaves in the field of its topology is sorted by
  \<^verbatim>\<open>(source, target, label, weight)\<close>, and sorting it again gives the same list.
  \<^verbatim>\<open>Ctc.run\<close> and \<^verbatim>\<open>Hmm.run\<close> sort last. \<^verbatim>\<open>Asg.run\<close> converts the labels after
  the sort; the list stays sorted since the edges of ASG that end in one state carry one
  label, so that no comparison is decided by a label. For ASG the run starts on a graph
  whose working list is empty, as it is after \<^verbatim>\<open>Graph.__init__\<close> and after every run
  that returned.
\<close>

theorem finalized_edges_sorted:
  "(Asg_run a = Inr a' \<and> edges (Asg.fsa a) = [] \<longrightarrow>
      sorted (map as_tuple (edges_asg (Asg.fsa a')))
      \<and> sort_edges (edges_asg (Asg.fsa a')) = edges_asg (Asg.fsa a'))
   \<and> (Ctc_run c = Inr c' \<longrightarrow>
      sorted (map as_tuple (edges_ctc (Ctc.fsa c')))
      \<and> sort_edges (edges_ctc (Ctc.fsa c')) = edges_ctc (Ctc.fsa c'))
   \<and> (Hmm_run h = Some (Inr h') \<longrightarrow>
      sorted (map as_tuple (edges_hmm (Hmm.fsa h')))
      \<and> sort_edges (edges_hmm (Hmm.fsa h')) = edges_hmm (Hmm.fsa h'))"
proof (intro conjI impI)
  assume "Asg_run a = Inr a' \<and> edges (Asg.fsa a) = []"
  then show s: "sorted (map as_tuple (edges_asg (Asg.fsa a')))"
    using asg_run_sorted by blast
  then show "sort_edges (edges_asg (Asg.fsa a')) = edges_asg (Asg.fsa a')"
    by (rule sort_edges_idem)
next
  assume "Ctc_run c = Inr c'"
  then obtain es where "edges_ctc (Ctc.fsa c') = sort_edges es"
    by (auto simp: Ctc_run_def ctc_finish_def Let_def split: sum.splits prod.splits)
  then show s: "sorted (map as_tuple (edges_ctc (Ctc.fsa c')))"
    by (simp add: sort_edges_sorted)
  then show "sort_edges (edges_ctc (Ctc.fsa c')) = edges_ctc (Ctc.fsa c')"
    by (rule sort_edges_idem)
next
  assume "Hmm_run h = Some (Inr h')"
  then obtain es where "edges_hmm (Hmm.fsa h') = sort_edges es"
    by (auto simp: Hmm_run_def hmm_finish_def Let_def split: sum.splits prod.splits option.splits)
  then show s: "sorted (map as_tuple (edges_hmm (Hmm.fsa h')))"
    by (simp add: sort_edges_sorted)
  then show "sort_edges (edges_hmm (Hmm.fsa h')) = edges_hmm (Hmm.fsa h')"
    by (rule sort_edges_idem)
qed

theorem finalized_edges_sorted_witness:
  "\<exists>a' c' h'.
     Asg_run \<lparr>Asg.fsa = Graph [PyStr ''a!'', PyStr ''!%''], num_labels = 256,
              asg_repetition = 2, label_conversion = True, separator = False\<rparr> = Inr a'
     \<and> sorted (map as_tuple (edges_asg (Asg.fsa a')))
     \<and> sort_edges (edges_asg (Asg.fsa a')) = edges_asg (Asg.fsa a')
     \<and> Ctc_run \<lparr>Ctc.fsa = Graph [PyStr ''ab''], num_labels = 256,
                 label_conversion = True, final_states = []\<rparr> = Inr c'
     \<and> sorted (map as_tuple (edges_ctc (Ctc.fsa c')))
     \<and> sort_edges (edges_ctc (Ctc.fsa c')) = edges_ctc (Ctc.fsa c')
     \<and> Hmm_run \<lparr>Hmm.fsa = Graph [PyStr ''a''], depth = 6, allo_num_states = 3,
                 state_tying_conversion = False,
                 lexicon = Some (map_of [(''a'', [\<lparr>phon = ''x y'', pron_score = 0\<rparr>])]),
                 state_tying = None, phon_dict = Map.empty\<rparr> = Some (Inr h')
     \<and> sorted (map as_tuple (edges_hmm (Hmm.fsa h')))
     \<and> sort_edges (edges_hmm (Hmm.fsa h')) = edges_hmm (Hmm.fsa h')"
proof -
  let ?A = "\<lparr>Asg.fsa = Graph [PyStr ''a!'', PyStr ''!%''], num_labels = 256,
              asg_repetition = 2, label_conversion = True, separator = False\<rparr>"
  let ?C = "\<lparr>Ctc.fsa = Graph [PyStr ''ab''], num_labels = 256,
              label_conversion = True, final_states = []\<rparr>"
  let ?H = "\<lparr>Hmm.fsa = Graph [PyStr ''a''], depth = 6, allo_num_states = 3,
              state_tying_conversion = False,
              lexicon = Some (map_of [(''a'', [\<lparr>phon = ''x y'', pron_score = 0\<rparr>])]),
              state_tying = None, phon_dict = Map.empty\<rparr>"
  have "case Asg_run ?A of Inr _ \<Rightarrow> True | Inl _ \<Rightarrow> False" by code_simp
  then obtain a' where a: "Asg_run ?A = Inr a'" by (auto split: sum.splits)
  have "case Ctc_run ?C of Inr _ \<Rightarrow> True | Inl _ \<Rightarrow> False" by code_simp
  then obtain c' where c: "Ctc_run ?C = Inr c'" by (auto split: sum.splits)
  have "case Hmm_run ?H of Some (Inr _) \<Rightarrow> True | _ \<Rightarrow> False" by code_simp
  then obtain h' where h: "Hmm_run ?H = Some (Inr h')"
    by (cases "Hmm_run ?H"; cases "the (Hmm_run ?H)") auto
  have e: "edges (Asg.fsa ?A) = []" by (simp add: Graph_def)
  from finalized_edges_sorted [of ?A a' ?C c' ?H h'] a c h e
  show ?thesis by blast
qed

subsection \<open>The renumbering of the states\<close>




lemma fold_update_length:
  "length (fold (\<lambda>k es'. case d k of Some p \<Rightarrow> es'[k := g p (es' ! k)] | None \<Rightarrow> es') ks es)
     = length es"
  by (induction ks arbitrary: es) (auto split: option.splits)

lemma rewrite_nodes_length [simp]: "length (rewrite_nodes d v es) = length es"
  unfolding rewrite_nodes_def by (rule fold_update_length)




lemma relabel_id [simp]: "relabel id e = e"
  by (simp add: relabel_def)


lemma swap_idx_invol [simp]: "swap_idx s t (swap_idx s t x) = x"
  by (simp add: swap_idx_def)


























end
